theory Spec2Isabelle
  imports Complex_Main "HOL-Library.Sublist" "HOL-Library.Multiset"
begin

section \<open>JavaScript values\<close>

text \<open>
  A JavaScript string is a sequence of UTF-16 code units; \<open>length\<close> counts code units.
  A code unit is modelled by its numeric value (below 65536 in every real string).
  ASCII literals of the source are written with \<open>js\<close>.
\<close>

type_synonym jsstring = "nat list"

definition js :: "string \<Rightarrow> jsstring" where
  "js s = map of_char s"

text \<open>
  A JavaScript number: a finite double, taken as the real number it denotes, or one of
  the three non-finite values. Arithmetic on finite values is that of the reals
  (rounding is not modelled).
\<close>

datatype jsnum = Fin real | NaN | PosInf | NegInf

text \<open>
  A value as \<open>JSON.parse\<close> produces it (the settings file and the output of the search
  backend are both JSON). An object is its list of own properties.
\<close>

datatype jsval =
    JUndefined
  | JNull
  | JBool bool
  | JNum jsnum
  | JStr jsstring
  | JArr "jsval list"
  | JObj "(jsstring \<times> jsval) list"

type_synonym jsobject = "(jsstring \<times> jsval) list"

text \<open>Property access \<open>v.name\<close> on a value that is not null or undefined, for a name that
  no prototype defines: the own property of an object, \<open>undefined\<close> otherwise.\<close>

fun getProp :: "jsval \<Rightarrow> jsstring \<Rightarrow> jsval" where
  "getProp (JObj ps) name = (case map_of ps name of Some v \<Rightarrow> v | None \<Rightarrow> JUndefined)"
| "getProp _ name = JUndefined"

text \<open>Optional chaining \<open>v?.name\<close>.\<close>

fun optProp :: "jsval \<Rightarrow> jsstring \<Rightarrow> jsval" where
  "optProp JUndefined name = JUndefined"
| "optProp JNull name = JUndefined"
| "optProp v name = getProp v name"

text \<open>\<open>Number.isFinite(v) ? Number(v) : d\<close>, with the clamp applied in the first branch.\<close>

fun finiteNum :: "jsval \<Rightarrow> real option" where
  "finiteNum (JNum (Fin r)) = Some r"
| "finiteNum _ = None"

text \<open>White space as \<open>String.prototype.trim\<close> and the regular expression class \<open>\s\<close>
  define it: TAB, LF, VT, FF, CR, SP, NBSP, U+1680, U+2000..U+200A, U+2028, U+2029,
  U+202F, U+205F, U+3000, U+FEFF.\<close>

definition isWhiteSpace :: "nat \<Rightarrow> bool" where
  "isWhiteSpace c \<longleftrightarrow>
     c \<in> {9, 10, 11, 12, 13, 32, 160, 5760, 8232, 8233, 8239, 8287, 12288, 65279}
     \<or> (8192 \<le> c \<and> c \<le> 8202)"

definition trim :: "jsstring \<Rightarrow> jsstring" where
  "trim s = rev (dropWhile isWhiteSpace (rev (dropWhile isWhiteSpace s)))"

text \<open>\<open>s.indexOf(t)\<close>: the first position where \<open>t\<close> occurs, \<open>None\<close> for \<open>-1\<close>.\<close>

fun indexOf :: "jsstring \<Rightarrow> jsstring \<Rightarrow> nat option" where
  "indexOf [] t = (if t = [] then Some 0 else None)"
| "indexOf (c # cs) t = (if prefix t (c # cs) then Some 0 else map_option Suc (indexOf cs t))"

definition includes_str :: "jsstring \<Rightarrow> jsstring \<Rightarrow> bool" where
  "includes_str s t = (indexOf s t \<noteq> None)"

section \<open>The platform\<close>

text \<open>
  What the module takes from Node.js and from the rest of the repository, as parameters:
  the home directories, \<open>path.join\<close>, the three file-system calls, the outcome of a spawned
  command, and the built-ins \<open>toLowerCase\<close>, \<open>JSON.parse\<close>, \<open>toFixed(3)\<close>,
  \<open>String\<close> on numbers and objects, and \<open>new Date(t).toISOString()\<close>.
  A call that throws returns \<open>None\<close> (or \<open>False\<close> for \<open>mkdirSync\<close>).
\<close>

record cmdcall =
  cmd :: jsstring
  args :: "jsstring list"
  timeoutMs :: real
  extraEnv :: "(jsstring \<times> jsstring) list"

record platform =
  TINYCLAW_HOME :: jsstring
  homedir :: jsstring
  pathJoin :: "jsstring \<Rightarrow> jsstring \<Rightarrow> jsstring"
  existsSync :: "jsstring \<Rightarrow> bool"
  readFileSync :: "jsstring \<Rightarrow> jsstring option"
  mkdirSync :: "jsstring \<Rightarrow> bool"
  spawnResult :: "nat \<Rightarrow> cmdcall \<Rightarrow> jsstring + jsstring"
  toLowerCase :: "jsstring \<Rightarrow> jsstring"
  JSON_parse :: "jsstring \<Rightarrow> jsval option"
  toFixed3 :: "jsnum \<Rightarrow> jsstring"
  numToString :: "jsnum \<Rightarrow> jsstring"
  objToString :: "jsval \<Rightarrow> jsstring option"
  toISOString :: "int \<Rightarrow> jsstring option"

section \<open>Configuration\<close>

record QmdConfig =
  enabled :: bool
  command :: "jsstring option"
  topK :: real
  minScore :: real
  maxChars :: real
  updateIntervalSeconds :: real
  useSemanticSearch :: bool
  disableQueryExpansion :: bool
  allowUnsafeVsearch :: bool
  quickPrecheckEnabled :: bool
  precheckTimeoutMs :: real
  searchTimeoutMs :: real
  vectorSearchTimeoutMs :: real
  debugLogging :: bool

definition DEFAULT_TOP_K :: real where "DEFAULT_TOP_K = 4"
definition DEFAULT_MIN_SCORE :: real where "DEFAULT_MIN_SCORE = 0"
definition DEFAULT_MAX_CHARS :: real where "DEFAULT_MAX_CHARS = 2500"
definition DEFAULT_UPDATE_INTERVAL_SECONDS :: real where "DEFAULT_UPDATE_INTERVAL_SECONDS = 120"
definition DEFAULT_PRECHECK_TIMEOUT_MS :: real where "DEFAULT_PRECHECK_TIMEOUT_MS = 800"
definition DEFAULT_TEXT_SEARCH_TIMEOUT_MS :: real where "DEFAULT_TEXT_SEARCH_TIMEOUT_MS = 3000"
definition DEFAULT_VECTOR_SEARCH_TIMEOUT_MS :: real where "DEFAULT_VECTOR_SEARCH_TIMEOUT_MS = 10000"

text \<open>\<open>Number.isFinite(v) ? Math.max(lo, Number(v)) : d\<close>\<close>

definition clampedOr :: "real \<Rightarrow> real \<Rightarrow> jsval \<Rightarrow> real" where
  "clampedOr lo d v = (case finiteNum v of Some r \<Rightarrow> max lo r | None \<Rightarrow> d)"

text \<open>The settings object is not null (its type is \<open>Settings\<close>); it is given by its
  properties.\<close>

definition getQmdConfig :: "jsobject \<Rightarrow> QmdConfig" where
  "getQmdConfig settings =
    (let memory = getProp (JObj settings) (js ''memory'');
         memoryCfg = optProp memory (js ''qmd'');
         commandStr = (case optProp memoryCfg (js ''command'') of JStr s \<Rightarrow> trim s | _ \<Rightarrow> [])
     in \<lparr> enabled = (optProp memory (js ''enabled'') = JBool True
                      \<and> optProp memoryCfg (js ''enabled'') \<noteq> JBool False),
          command = (if commandStr = [] then None else Some commandStr),
          topK = clampedOr 1 DEFAULT_TOP_K (optProp memoryCfg (js ''top_k'')),
          minScore = (case finiteNum (optProp memoryCfg (js ''min_score'')) of
                        Some r \<Rightarrow> r | None \<Rightarrow> DEFAULT_MIN_SCORE),
          maxChars = clampedOr 500 DEFAULT_MAX_CHARS (optProp memoryCfg (js ''max_chars'')),
          updateIntervalSeconds = clampedOr 10 DEFAULT_UPDATE_INTERVAL_SECONDS
                                    (optProp memoryCfg (js ''update_interval_seconds'')),
          useSemanticSearch = (optProp memoryCfg (js ''use_semantic_search'') = JBool True),
          disableQueryExpansion = (optProp memoryCfg (js ''disable_query_expansion'') \<noteq> JBool False),
          allowUnsafeVsearch = (optProp memoryCfg (js ''allow_unsafe_vsearch'') = JBool True),
          quickPrecheckEnabled = (optProp memoryCfg (js ''quick_precheck_enabled'') \<noteq> JBool False),
          precheckTimeoutMs = clampedOr 100 DEFAULT_PRECHECK_TIMEOUT_MS
                                (optProp memoryCfg (js ''precheck_timeout_ms'')),
          searchTimeoutMs = clampedOr 500 DEFAULT_TEXT_SEARCH_TIMEOUT_MS
                              (optProp memoryCfg (js ''search_timeout_ms'')),
          vectorSearchTimeoutMs = clampedOr 1000 DEFAULT_VECTOR_SEARCH_TIMEOUT_MS
                                    (optProp memoryCfg (js ''vector_search_timeout_ms'')),
          debugLogging = (optProp memoryCfg (js ''debug_logging'') = JBool True) \<rparr>)"

section \<open>Module state\<close>

text \<open>
  The module-level variables. \<open>issued\<close> is not a variable of the source: it records, in
  order, every command handed to \<open>spawn\<close>, so that properties about calls to the backend
  can be stated. The calls of \<open>log\<close> (module \<open>./logging\<close>) are taken to return
  normally; they write to the log sink only and are left out.
\<close>

record mstate =
  qmdChecked :: bool
  qmdAvailable :: bool
  qmdUnavailableLogged :: bool
  qmdCommandPath :: "jsstring option"
  qmdCheckKey :: jsstring
  qmdDisableExpansionCheckKey :: jsstring
  qmdDisableExpansionSupported :: bool
  qmdUnsafeFallbackLogged :: bool
  collectionPrepared :: "jsstring list"
  lastCollectionUpdateMs :: "(jsstring \<times> int) list"
  issued :: "cmdcall list"

definition initialState :: mstate where
  "initialState =
     \<lparr> qmdChecked = False, qmdAvailable = False, qmdUnavailableLogged = False,
       qmdCommandPath = None, qmdCheckKey = [], qmdDisableExpansionCheckKey = [],
       qmdDisableExpansionSupported = False, qmdUnsafeFallbackLogged = False,
       collectionPrepared = [], lastCollectionUpdateMs = [], issued = [] \<rparr>"

text \<open>\<open>qmdCommandPath || d\<close>: null and the empty string are falsy.\<close>

definition commandOr :: "mstate \<Rightarrow> jsstring \<Rightarrow> jsstring" where
  "commandOr st d = (case qmdCommandPath st of None \<Rightarrow> d | Some p \<Rightarrow> if p = [] then d else p)"

section \<open>Capability check and retrieval mode\<close>

definition isDisableExpansionPatchedQmd :: "platform \<Rightarrow> jsstring option \<Rightarrow> bool" where
  "isDisableExpansionPatchedQmd P commandPath =
     (case commandPath of
        None \<Rightarrow> False
      | Some p \<Rightarrow>
          if p = [] then False
          else
            let bunGlobalQmd = pathJoin P (homedir P) (js ''.bun/bin/qmd'');
                patchedStoreTs = pathJoin P (homedir P)
                                   (js ''.bun/install/global/node_modules/qmd/src/store.ts'')
            in if p = bunGlobalQmd \<and> existsSync P patchedStoreTs
               then (case readFileSync P patchedStoreTs of
                       None \<Rightarrow> False
                     | Some src \<Rightarrow> includes_str src (js ''QMD_VSEARCH_DISABLE_EXPANSION''))
               else False)"

definition isDisableExpansionSupported :: "platform \<Rightarrow> mstate \<Rightarrow> bool \<times> mstate" where
  "isDisableExpansionSupported P st =
     (let key = commandOr st (js ''__unknown__'')
      in if qmdDisableExpansionCheckKey st = key then (qmdDisableExpansionSupported st, st)
         else
           let supported = isDisableExpansionPatchedQmd P (qmdCommandPath st)
           in (supported, st\<lparr> qmdDisableExpansionCheckKey := key,
                                 qmdDisableExpansionSupported := supported \<rparr>))"

datatype modeLabel = Qmd_bm25 | Qmd_vsearch

record retrievalMode =
  useVsearch :: bool
  label :: modeLabel

text \<open>The two warnings differ in their text only; each sets \<open>qmdUnsafeFallbackLogged\<close>.\<close>

definition resolveRetrievalMode :: "platform \<Rightarrow> mstate \<Rightarrow> QmdConfig \<Rightarrow> retrievalMode \<times> mstate" where
  "resolveRetrievalMode P st qmdCfg =
     (let (useV, st') =
            (if useSemanticSearch qmdCfg \<and> \<not> allowUnsafeVsearch qmdCfg then
               if \<not> disableQueryExpansion qmdCfg then
                 (False, st\<lparr> qmdUnsafeFallbackLogged := True \<rparr>)
               else
                 let (supported, st1) = isDisableExpansionSupported P st
                 in if \<not> supported then (False, st1\<lparr> qmdUnsafeFallbackLogged := True \<rparr>)
                    else (useSemanticSearch qmdCfg, st1)
             else (useSemanticSearch qmdCfg, st))
      in (\<lparr> useVsearch = useV, label = (if useV then Qmd_vsearch else Qmd_bm25) \<rparr>, st'))"

section \<open>Lexical query variants\<close>

text \<open>\<open>s.replace(/\s+/g, ' ')\<close>: every maximal run of white space becomes one space.
  The flag says that the previous code unit was white space.\<close>

fun collapseWs :: "bool \<Rightarrow> jsstring \<Rightarrow> jsstring" where
  "collapseWs inRun [] = []"
| "collapseWs inRun (c # cs) =
     (if isWhiteSpace c then (if inRun then collapseWs True cs else 32 # collapseWs True cs)
      else c # collapseWs False cs)"

text \<open>The closure \<open>push\<close> of \<open>buildLexicalQueryVariants\<close>, with the array passed in and
  returned.\<close>

definition push :: "jsstring list \<Rightarrow> jsstring \<Rightarrow> jsstring list" where
  "push variants v =
     (let cleaned = collapseWs False (trim v)
      in if cleaned = [] then variants
         else if cleaned \<in> set variants then variants
         else variants @ [cleaned])"

text \<open>The class \<open>[?!,.;:]\<close> with the full-width forms U+FF1F, U+FF01, U+FF0C, U+3002,
  U+FF1B, U+FF1A.\<close>

definition isPunct :: "nat \<Rightarrow> bool" where
  "isPunct c \<longleftrightarrow> c \<in> {63, 65311, 33, 65281, 44, 65292, 46, 12290, 59, 65307, 58, 65306}"

text \<open>Global replacement by a space of a regular expression that is an alternation of
  literal strings: at each position the first alternative that matches there is taken,
  and the scan goes on after the match. The counter is the number of code units of the
  current match still to skip.\<close>

fun replaceAlts :: "jsstring list \<Rightarrow> nat \<Rightarrow> jsstring \<Rightarrow> jsstring" where
  "replaceAlts alts k [] = []"
| "replaceAlts alts (Suc k) (c # cs) = replaceAlts alts k cs"
| "replaceAlts alts 0 (c # cs) =
     (case find (\<lambda>a. prefix a (c # cs)) alts of
        Some a \<Rightarrow> 32 # replaceAlts alts (length a - 1) cs
      | None \<Rightarrow> c # replaceAlts alts 0 cs)"

text \<open>The Chinese question particles, in the order of the alternation:
  U+662F U+4EC0 U+4E48, U+662F U+5565, U+4EC0 U+4E48, U+591A U+5C11, U+51E0 U+70B9,
  U+54EA U+91CC, U+54EA U+513F, U+54EA U+4E2A, U+54EA U+4F4D, U+8C01, U+5417, U+5462,
  U+6765 U+7740.\<close>

definition zhParticles :: "jsstring list" where
  "zhParticles =
     [[26159, 20160, 20040], [26159, 21861], [20160, 20040], [22810, 23569], [20960, 28857],
      [21738, 37324], [21738, 20799], [21738, 20010], [21738, 20301], [35841], [21527],
      [21602], [26469, 30528]]"

definition enQuestionWords :: "jsstring list" where
  "enQuestionWords =
     [js ''what'', js ''which'', js ''who'', js ''where'', js ''when'', js ''why'', js ''how'']"

text \<open>\<open>\w\<close> is \<open>[A-Za-z0-9_]\<close>; \<open>\b\<close> holds between two positions when exactly one
  of the neighbours is a word character (the ends of the string are not).\<close>

definition isWordChar :: "nat \<Rightarrow> bool" where
  "isWordChar c \<longleftrightarrow> (48 \<le> c \<and> c \<le> 57) \<or> (65 \<le> c \<and> c \<le> 90) \<or> c = 95 \<or> (97 \<le> c \<and> c \<le> 122)"

definition isWordOpt :: "nat option \<Rightarrow> bool" where
  "isWordOpt p = (case p of None \<Rightarrow> False | Some c \<Rightarrow> isWordChar c)"

definition wordBoundary :: "nat option \<Rightarrow> nat option \<Rightarrow> bool" where
  "wordBoundary before after = (isWordOpt before \<noteq> isWordOpt after)"

definition headOpt :: "jsstring \<Rightarrow> nat option" where
  "headOpt s = (case s of [] \<Rightarrow> None | c # _ \<Rightarrow> Some c)"

text \<open>Matching under the flag \<open>i\<close> (without \<open>u\<close>): a pattern letter matches its two ASCII
  cases and nothing else.\<close>

definition asciiLower :: "nat \<Rightarrow> nat" where
  "asciiLower c = (if 65 \<le> c \<and> c \<le> 90 then c + 32 else c)"

definition ciPrefix :: "jsstring \<Rightarrow> jsstring \<Rightarrow> bool" where
  "ciPrefix w s = prefix w (map asciiLower s)"

text \<open>\<open>\b(w)\b\<close> at the current position, \<open>prev\<close> being the code unit before it.\<close>

definition wordAt :: "jsstring \<Rightarrow> nat option \<Rightarrow> jsstring \<Rightarrow> bool" where
  "wordAt w prev s \<longleftrightarrow>
     wordBoundary prev (headOpt s) \<and> ciPrefix w s
     \<and> wordBoundary (headOpt (rev (take (length w) s))) (headOpt (drop (length w) s))"

fun replaceWords :: "jsstring list \<Rightarrow> nat \<Rightarrow> nat option \<Rightarrow> jsstring \<Rightarrow> jsstring" where
  "replaceWords ws k prev [] = []"
| "replaceWords ws (Suc k) prev (c # cs) = replaceWords ws k (Some c) cs"
| "replaceWords ws 0 prev (c # cs) =
     (case find (\<lambda>w. wordAt w prev (c # cs)) ws of
        Some w \<Rightarrow> 32 # replaceWords ws (length w - 1) (Some c) cs
      | None \<Rightarrow> c # replaceWords ws 0 (Some c) cs)"

definition buildLexicalQueryVariants :: "jsstring \<Rightarrow> jsstring list" where
  "buildLexicalQueryVariants message =
     (let v0 = push [] message;
          noPunct = map (\<lambda>c. if isPunct c then 32 else c) message;
          v1 = push v0 noPunct;
          zhSimplified = collapseWs False (replaceAlts zhParticles 0 noPunct);
          v2 = push v1 zhSimplified;
          enSimplified = collapseWs False (replaceWords enQuestionWords 0 None noPunct);
          v3 = push v2 enSimplified
      in push v3 (map (\<lambda>c. if c = 45 then 32 else c) noPunct))"

section \<open>Search results and the memory prompt\<close>

record QmdResult =
  score :: jsnum
  snippet :: jsstring
  source :: jsstring

text \<open>A natural number in decimal, as a template literal prints it.\<close>

fun showNat :: "nat \<Rightarrow> jsstring" where
  "showNat n = (if n < 10 then [48 + n] else showNat (n div 10) @ [48 + n mod 10])"

text \<open>\<open>xs.join(sep)\<close>\<close>

fun joinWith :: "jsstring \<Rightarrow> jsstring list \<Rightarrow> jsstring" where
  "joinWith sep [] = []"
| "joinWith sep [x] = x"
| "joinWith sep (x # y # ys) = x @ sep @ joinWith sep (y # ys)"

text \<open>The block of the snippet at index \<open>i\<close>; \<open>fmt\<close> is \<open>toFixed(3)\<close>.\<close>

definition snippetBlock :: "(jsnum \<Rightarrow> jsstring) \<Rightarrow> nat \<Rightarrow> QmdResult \<Rightarrow> jsstring" where
  "snippetBlock fmt i result =
     joinWith [10]
       [js ''Snippet '' @ showNat (i + 1) @ js '' (score='' @ fmt (score result) @ js ''):'',
        (if source result \<noteq> [] then js ''Source: '' @ source result else js ''Source: unknown''),
        snippet result]"

text \<open>The loop of \<open>formatMemoryPrompt\<close>, from index \<open>i\<close> with \<open>usedChars\<close> code units
  already taken; it stops at the first block that does not fit.\<close>

fun packBlocks :: "(jsnum \<Rightarrow> jsstring) \<Rightarrow> real \<Rightarrow> nat \<Rightarrow> nat \<Rightarrow> QmdResult list \<Rightarrow> jsstring list" where
  "packBlocks fmt maxCh i usedChars [] = []"
| "packBlocks fmt maxCh i usedChars (r # rs) =
     (let b = snippetBlock fmt i r
      in if real (usedChars + length b) > maxCh then []
         else b # packBlocks fmt maxCh (Suc i) (usedChars + length b) rs)"

definition memoryPreamble :: jsstring where
  "memoryPreamble =
     joinWith [10]
       [[], js ''---'', js ''Retrieved memory snippets (from past conversations):'',
        js ''Use only if relevant. Prioritize current user instructions over old memory.'',
        [], []]"

definition formatMemoryPrompt :: "(jsnum \<Rightarrow> jsstring) \<Rightarrow> QmdResult list \<Rightarrow> real \<Rightarrow> jsstring" where
  "formatMemoryPrompt fmt results maxCh =
     (if results = [] then []
      else
        let blocks = packBlocks fmt maxCh 0 0 results
        in if blocks = [] then []
           else joinWith [10]
                  [[], js ''---'', js ''Retrieved memory snippets (from past conversations):'',
                   js ''Use only if relevant. Prioritize current user instructions over old memory.'',
                   [], joinWith [10, 10] blocks])"


text \<open>The five candidates that \<open>buildLexicalQueryVariants\<close> hands to \<open>push\<close>, in order.\<close>

definition variantCandidates :: "jsstring \<Rightarrow> jsstring list" where
  "variantCandidates message =
     (let noPunct = map (\<lambda>c. if isPunct c then 32 else c) message
      in [message, noPunct,
          collapseWs False (replaceAlts zhParticles 0 noPunct),
          collapseWs False (replaceWords enQuestionWords 0 None noPunct),
          map (\<lambda>c. if c = 45 then 32 else c) noPunct])"


section \<open>Errors and commands\<close>

text \<open>What the module can throw: a rejected \<open>runCommand\<close> (with the message of its
  \<open>Error\<close>: a timeout, a non-zero exit or a failed spawn), a failed file-system call,
  a \<open>TypeError\<close> and a \<open>URIError\<close>.\<close>

datatype jserror = CommandError jsstring | FsError | TypeError | URIError

text \<open>\<open>runCommand\<close>: the outcome of the spawned process is the platform's, asked with
  the number of commands issued before this one. \<open>Inl\<close> is a rejection with its message,
  \<open>Inr\<close> the standard output of a process that exited with code 0.\<close>

definition runCommand :: "platform \<Rightarrow> mstate \<Rightarrow> cmdcall \<Rightarrow> (jsstring + jsstring) \<times> mstate" where
  "runCommand P st c = (spawnResult P (length (issued st)) c, st\<lparr> issued := issued st @ [c] \<rparr>)"

section \<open>Backend probe\<close>

fun tryCandidates :: "platform \<Rightarrow> mstate \<Rightarrow> jsstring list \<Rightarrow> mstate" where
  "tryCandidates P st [] = st"
| "tryCandidates P st (candidate # rest) =
     (case runCommand P st \<lparr> cmd = candidate, args = [js ''--help''], timeoutMs = 5000, extraEnv = [] \<rparr> of
        (Inr out, st') \<Rightarrow> st'\<lparr> qmdCommandPath := Some candidate, qmdAvailable := True \<rparr>
      | (Inl e, st') \<Rightarrow> tryCandidates P st' rest)"

definition isQmdAvailable :: "platform \<Rightarrow> mstate \<Rightarrow> jsstring option \<Rightarrow> bool \<times> mstate" where
  "isQmdAvailable P st preferredCommand =
     (let preferred = (case preferredCommand of None \<Rightarrow> [] | Some p \<Rightarrow> p);
          key = (if preferred = [] then js ''__auto__'' else preferred)
      in if qmdChecked st \<and> qmdCheckKey st = key then (qmdAvailable st, st)
         else
           let st1 = st\<lparr> qmdChecked := True, qmdCheckKey := key, qmdAvailable := False,
                          qmdCommandPath := None \<rparr>;
               bundledQmd = pathJoin P (homedir P) (js ''.bun/bin/qmd'');
               candidates = (if preferred = [] then [bundledQmd, js ''qmd''] else [preferred]);
               st2 = tryCandidates P st1 candidates;
               st3 = (if qmdAvailable st2 then st2 else st2\<lparr> qmdCommandPath := None \<rparr>)
           in (qmdAvailable st3, st3))"

definition MEMORY_CHANNELS :: "jsstring list" where
  "MEMORY_CHANNELS = [js ''telegram'', js ''discord'', js ''whatsapp'']"

definition shouldUseMemoryForChannel :: "jsstring \<Rightarrow> bool" where
  "shouldUseMemoryForChannel channel \<longleftrightarrow> channel \<in> set MEMORY_CHANNELS"

section \<open>Collections\<close>

definition isIdChar :: "nat \<Rightarrow> bool" where
  "isIdChar c \<longleftrightarrow> (97 \<le> c \<and> c \<le> 122) \<or> (48 \<le> c \<and> c \<le> 57) \<or> c = 95 \<or> c = 45"

definition sanitizeId :: "platform \<Rightarrow> jsstring \<Rightarrow> jsstring" where
  "sanitizeId P raw = map (\<lambda>c. if isIdChar c then c else 45) (toLowerCase P raw)"

definition MEMORY_ROOT :: "platform \<Rightarrow> jsstring" where
  "MEMORY_ROOT P = pathJoin P (TINYCLAW_HOME P) (js ''memory'')"

definition MEMORY_TURNS_DIR :: "platform \<Rightarrow> jsstring" where
  "MEMORY_TURNS_DIR P = pathJoin P (MEMORY_ROOT P) (js ''turns'')"

definition getAgentTurnsDir :: "platform \<Rightarrow> jsstring \<Rightarrow> jsstring" where
  "getAgentTurnsDir P agentId = pathJoin P (MEMORY_TURNS_DIR P) (sanitizeId P agentId)"

definition getCollectionName :: "platform \<Rightarrow> jsstring \<Rightarrow> jsstring" where
  "getCollectionName P agentId = js ''tinyclaw-'' @ sanitizeId P agentId"

text \<open>\<open>ensureDir\<close>: true when it returns, false when \<open>mkdirSync\<close> throws.\<close>

definition ensureDir :: "platform \<Rightarrow> jsstring \<Rightarrow> bool" where
  "ensureDir P dir = (if existsSync P dir then True else mkdirSync P dir)"

definition ensureCollection :: "platform \<Rightarrow> mstate \<Rightarrow> jsstring \<Rightarrow> (jserror + jsstring) \<times> mstate" where
  "ensureCollection P st agentId =
     (if \<not> ensureDir P (MEMORY_ROOT P) then (Inl FsError, st)
      else
        let agentTurnsDir = getAgentTurnsDir P agentId
        in if \<not> ensureDir P agentTurnsDir then (Inl FsError, st)
           else
             let collectionName = getCollectionName P agentId
             in if collectionName \<in> set (collectionPrepared st) then (Inr collectionName, st)
                else
                  (case runCommand P st
                          \<lparr> cmd = commandOr st (js ''qmd''),
                            args = [js ''collection'', js ''add'', agentTurnsDir, js ''--name'',
                                    collectionName, js ''--mask'', js ''**/*.md''],
                            timeoutMs = 10000, extraEnv = [] \<rparr> of
                     (Inr out, st') \<Rightarrow>
                       (Inr collectionName,
                        st'\<lparr> collectionPrepared := collectionPrepared st' @ [collectionName] \<rparr>)
                   | (Inl msg, st') \<Rightarrow>
                       if includes_str (toLowerCase P msg) (js ''already'')
                          \<or> includes_str (toLowerCase P msg) (js ''exists'')
                       then (Inr collectionName,
                             st'\<lparr> collectionPrepared := collectionPrepared st' @ [collectionName] \<rparr>)
                       else (Inl (CommandError msg), st')))"

text \<open>\<open>lastCollectionUpdateMs.get(name) || 0\<close>\<close>

definition lastUpdateOf :: "mstate \<Rightarrow> jsstring \<Rightarrow> int" where
  "lastUpdateOf st name = (case map_of (lastCollectionUpdateMs st) name of Some t \<Rightarrow> t | None \<Rightarrow> 0)"

text \<open>\<open>maybeUpdateCollection\<close>; \<open>now\<close> is what \<open>Date.now()\<close> returns in this call.\<close>

definition maybeUpdateCollection ::
  "platform \<Rightarrow> mstate \<Rightarrow> int \<Rightarrow> jsstring \<Rightarrow> real \<Rightarrow> (jserror + unit) \<times> mstate" where
  "maybeUpdateCollection P st now collectionName updateIntervalSecs =
     (if real_of_int (now - lastUpdateOf st collectionName) < updateIntervalSecs * 1000
      then (Inr (), st)
      else
        (case runCommand P st
                \<lparr> cmd = commandOr st (js ''qmd''),
                  args = [js ''update'', js ''--collections'', collectionName],
                  timeoutMs = 15000, extraEnv = [] \<rparr> of
           (Inl msg, st') \<Rightarrow> (Inl (CommandError msg), st')
         | (Inr out, st') \<Rightarrow>
             (Inr (), st'\<lparr> lastCollectionUpdateMs :=
                              (collectionName, now) # lastCollectionUpdateMs st' \<rparr>)))"

text \<open>A sequence of calls of \<open>maybeUpdateCollection\<close>, one after the other, each with the
  clock reading and the collection it is made for, and what each call did: it
  returned without a command, it issued the update command and the command succeeded,
  or it issued the command and the command failed.\<close>

datatype updateOutcome = Skipped | Updated | UpdateFailed

definition updateOutcomeOf ::
  "platform \<Rightarrow> mstate \<Rightarrow> int \<Rightarrow> jsstring \<Rightarrow> real \<Rightarrow> updateOutcome" where
  "updateOutcomeOf P st now collectionName updateIntervalSecs =
     (case maybeUpdateCollection P st now collectionName updateIntervalSecs of
        (Inl e, st') \<Rightarrow> UpdateFailed
      | (Inr u, st') \<Rightarrow> if length (issued st') = length (issued st) then Skipped else Updated)"

fun updateTrace ::
  "platform \<Rightarrow> mstate \<Rightarrow> real \<Rightarrow> (int \<times> jsstring) list \<Rightarrow> (int \<times> jsstring \<times> updateOutcome) list" where
  "updateTrace P st updateIntervalSecs [] = []"
| "updateTrace P st updateIntervalSecs ((now, name) # calls) =
     (now, name, updateOutcomeOf P st now name updateIntervalSecs)
       # updateTrace P (snd (maybeUpdateCollection P st now name updateIntervalSecs))
           updateIntervalSecs calls"

section \<open>Parsing the backend's output\<close>

text \<open>Truthiness, and the chain \<open>a || b || c || d || ''\<close>.\<close>

fun truthy :: "jsval \<Rightarrow> bool" where
  "truthy JUndefined = False"
| "truthy JNull = False"
| "truthy (JBool b) = b"
| "truthy (JNum (Fin r)) = (r \<noteq> 0)"
| "truthy (JNum NaN) = False"
| "truthy (JNum n) = True"
| "truthy (JStr s) = (s \<noteq> [])"
| "truthy v = True"

fun firstTruthy :: "jsval list \<Rightarrow> jsval" where
  "firstTruthy [] = JStr []"
| "firstTruthy (v # vs) = (if truthy v then v else firstTruthy vs)"

text \<open>\<open>String(v)\<close>; on an object or an array it runs the value's \<open>toString\<close>, which is
  the platform's and can throw.\<close>

fun toStringJs :: "(jsnum \<Rightarrow> jsstring) \<Rightarrow> (jsval \<Rightarrow> jsstring option) \<Rightarrow> jsval \<Rightarrow> jserror + jsstring" where
  "toStringJs numStr objStr (JStr s) = Inr s"
| "toStringJs numStr objStr (JNum n) = Inr (numStr n)"
| "toStringJs numStr objStr (JBool b) = Inr (if b then js ''true'' else js ''false'')"
| "toStringJs numStr objStr JNull = Inr (js ''null'')"
| "toStringJs numStr objStr JUndefined = Inr (js ''undefined'')"
| "toStringJs numStr objStr v = (case objStr v of None \<Rightarrow> Inl TypeError | Some s \<Rightarrow> Inr s)"

text \<open>\<open>row && typeof row === 'object'\<close>\<close>

fun isObjectRow :: "jsval \<Rightarrow> bool" where
  "isObjectRow (JObj ps) = True"
| "isObjectRow (JArr xs) = True"
| "isObjectRow v = False"

definition rowScore :: "jsval \<Rightarrow> jsnum" where
  "rowScore r = (case getProp r (js ''score'') of JNum n \<Rightarrow> n | _ \<Rightarrow> Fin 0)"

definition rowSnippetValue :: "jsval \<Rightarrow> jsval" where
  "rowSnippetValue r =
     firstTruthy [getProp r (js ''snippet''), getProp r (js ''context''),
                  getProp r (js ''text''), getProp r (js ''content'')]"

definition rowSourceValue :: "jsval \<Rightarrow> jsval" where
  "rowSourceValue r =
     firstTruthy [getProp r (js ''path''), getProp r (js ''file''),
                  getProp r (js ''source''), getProp r (js ''title'')]"

fun parseRows ::
  "(jsnum \<Rightarrow> jsstring) \<Rightarrow> (jsval \<Rightarrow> jsstring option) \<Rightarrow> jsval list \<Rightarrow> jserror + QmdResult list" where
  "parseRows numStr objStr [] = Inr []"
| "parseRows numStr objStr (row # rows) =
     (if \<not> isObjectRow row then parseRows numStr objStr rows
      else
        (case toStringJs numStr objStr (rowSnippetValue row) of
           Inl e \<Rightarrow> Inl e
         | Inr s1 \<Rightarrow>
             (case toStringJs numStr objStr (rowSourceValue row) of
                Inl e \<Rightarrow> Inl e
              | Inr s2 \<Rightarrow>
                  if trim s1 = [] then parseRows numStr objStr rows
                  else
                    (case parseRows numStr objStr rows of
                       Inl e \<Rightarrow> Inl e
                     | Inr rs \<Rightarrow>
                         Inr (\<lparr> score = rowScore row, snippet = trim s1, source = trim s2 \<rparr> # rs)))))"

text \<open>The rows the loop runs over: the parsed array, or \<open>parsed.results || []\<close>. Reading
  \<open>results\<close> off \<open>null\<close> throws, and so does iterating a truthy value that is neither
  an array nor a string (a string iterates over its characters, which are not rows).\<close>

fun resultRows :: "jsval \<Rightarrow> jserror + jsval list" where
  "resultRows (JArr xs) = Inr xs"
| "resultRows JNull = Inl TypeError"
| "resultRows JUndefined = Inl TypeError"
| "resultRows parsed =
     (let r = getProp parsed (js ''results'')
      in if \<not> truthy r then Inr []
         else (case r of
                 JArr xs \<Rightarrow> Inr xs
               | JStr s \<Rightarrow> Inr (map (\<lambda>c. JStr [c]) s)
               | _ \<Rightarrow> Inl TypeError))"

definition parseQmdResults ::
  "(jsstring \<Rightarrow> jsval option) \<Rightarrow> (jsnum \<Rightarrow> jsstring) \<Rightarrow> (jsval \<Rightarrow> jsstring option)
     \<Rightarrow> jsstring \<Rightarrow> jserror + QmdResult list" where
  "parseQmdResults jsonParse numStr objStr raw =
     (let trimmed = trim raw
      in if trimmed = [] then Inr []
         else (case jsonParse trimmed of
                 None \<Rightarrow> Inr []
               | Some parsed \<Rightarrow>
                   (case resultRows parsed of
                      Inl e \<Rightarrow> Inl e
                    | Inr rows \<Rightarrow> parseRows numStr objStr rows)))"


section \<open>A platform for the examples\<close>

text \<open>
  The closed examples below run the module on this platform: paths are joined with a
  slash, every directory exists, no file can be read, every command exits with code 1,
  no output is JSON, numbers print as non-negative integers do (the examples use no
  others), every date prints as the same instant, and \<open>toLowerCase\<close> is that of ASCII.
  Single fields are replaced where an example needs another behaviour.
\<close>

definition examplePlatform :: platform where
  "examplePlatform =
     \<lparr> TINYCLAW_HOME = js ''/home/u/.tinyclaw'',
       homedir = js ''/home/u'',
       pathJoin = (\<lambda>a b. a @ 47 # b),
       existsSync = (\<lambda>p. True),
       readFileSync = (\<lambda>p. None),
       mkdirSync = (\<lambda>p. True),
       spawnResult = (\<lambda>n c. Inl (js ''Command exited with code 1'')),
       toLowerCase = map asciiLower,
       JSON_parse = (\<lambda>s. None),
       toFixed3 = (\<lambda>n. case n of Fin r \<Rightarrow> showNat (nat \<lfloor>r\<rfloor>) @ js ''.000'' | _ \<Rightarrow> js ''NaN''),
       numToString = (\<lambda>n. case n of Fin r \<Rightarrow> showNat (nat \<lfloor>r\<rfloor>) | _ \<Rightarrow> js ''NaN''),
       objToString = (\<lambda>v. Some (js ''[object Object]'')),
       toISOString = (\<lambda>t. Some (js ''2026-01-02T03:04:05.678Z'')) \<rparr>"


section \<open>Turn files\<close>

record TurnSections =
  user :: jsstring
  assistant :: jsstring

definition truncateInline :: "jsstring \<Rightarrow> nat \<Rightarrow> jsstring" where
  "truncateInline text mx = (if length text \<le> mx then text else take mx text @ js ''...'')"

definition normalizeInline :: "jsstring \<Rightarrow> jsstring" where
  "normalizeInline text = trim (collapseWs False text)"

definition userMarker :: jsstring where
  "userMarker = 10 # js ''## User'' @ [10]"

definition assistantMarker :: jsstring where
  "assistantMarker = 10 # js ''## Assistant'' @ [10]"

definition parseTurnSections :: "jsstring \<Rightarrow> TurnSections" where
  "parseTurnSections content =
     (case indexOf content userMarker of
        None \<Rightarrow> \<lparr> user = [], assistant = [] \<rparr>
      | Some userPos \<Rightarrow>
          (case indexOf content assistantMarker of
             None \<Rightarrow> \<lparr> user = [], assistant = [] \<rparr>
           | Some assistantPos \<Rightarrow>
               if assistantPos \<le> userPos then \<lparr> user = [], assistant = [] \<rparr>
               else
                 let userStart = userPos + length userMarker;
                     assistantStart = assistantPos + length assistantMarker
                 in \<lparr> user = trim (take (assistantPos - userStart) (drop userStart content)),
                      assistant = trim (drop assistantStart content) \<rparr>))"

text \<open>\<open>truncate(text, max = 16000)\<close> of the source (the name is taken by the record package).\<close>

definition truncateText :: "jsstring \<Rightarrow> nat \<Rightarrow> jsstring" where
  "truncateText text mx =
     (if length text \<le> mx then text else take mx text @ [10, 10] @ js ''[truncated]'')"

record turnParams =
  turnAgentId :: jsstring
  turnAgentName :: jsstring
  turnChannel :: jsstring
  turnSender :: jsstring
  turnMessageId :: jsstring
  userMessage :: jsstring
  agentResponse :: jsstring
  timestampMs :: "int option"

text \<open>The array \<open>lines\<close> of \<open>saveTurnToMemory\<close>, \<open>isoTime\<close> being the timestamp as
  \<open>toISOString\<close> prints it, and the content written, \<open>lines.join('\n')\<close>.\<close>

definition turnLines :: "turnParams \<Rightarrow> jsstring \<Rightarrow> jsstring list" where
  "turnLines p isoTime =
     [js ''# Turn for @'' @ turnAgentId p @ js '' ('' @ turnAgentName p @ js '')'',
      [],
      js ''- Timestamp: '' @ isoTime,
      js ''- Channel: '' @ turnChannel p,
      js ''- Sender: '' @ turnSender p,
      js ''- Message ID: '' @ turnMessageId p,
      [],
      js ''## User'',
      [],
      truncateText (userMessage p) 16000,
      [],
      js ''## Assistant'',
      [],
      truncateText (agentResponse p) 16000,
      []]"

definition turnFileContent :: "turnParams \<Rightarrow> jsstring \<Rightarrow> jsstring" where
  "turnFileContent p isoTime = joinWith [10] (turnLines p isoTime)"

text \<open>\<open>saveTurnToMemory\<close>: the path and the content it hands to \<open>fs.writeFileSync\<close>, or
  \<open>None\<close> when something threw before (the error is logged and swallowed). \<open>nowMs\<close> is
  what \<open>Date.now()\<close> returns.\<close>

definition saveTurnToMemory :: "platform \<Rightarrow> int \<Rightarrow> turnParams \<Rightarrow> (jsstring \<times> jsstring) option" where
  "saveTurnToMemory P nowMs p =
     (let ts = (case timestampMs p of None \<Rightarrow> nowMs | Some t \<Rightarrow> if t = 0 then nowMs else t);
          dir = getAgentTurnsDir P (turnAgentId p)
      in if \<not> ensureDir P dir then None
         else
           (case toISOString P ts of
              None \<Rightarrow> None
            | Some isoTime \<Rightarrow>
                let fileName = map (\<lambda>c. if c = 58 \<or> c = 46 then 45 else c) isoTime
                                 @ js ''-'' @ turnMessageId p @ js ''.md''
                in Some (pathJoin P dir fileName, turnFileContent p isoTime)))"

text \<open>The lines of a string: the pieces between its line feeds.\<close>

fun splitNl :: "jsstring \<Rightarrow> jsstring list" where
  "splitNl [] = [[]]"
| "splitNl (c # cs) =
     (if c = 10 then [] # splitNl cs
      else (case splitNl cs of [] \<Rightarrow> [[c]] | l # ls \<Rightarrow> (c # l) # ls))"

text \<open>The lines \<open>ls\<close>, each followed by a line feed, and then \<open>t\<close>.\<close>

definition unlinesThen :: "jsstring list \<Rightarrow> jsstring \<Rightarrow> jsstring" where
  "unlinesThen ls t = foldr (\<lambda>l r. l @ 10 # r) ls t"


section \<open>Hydration and ranking\<close>

definition isLineTerminator :: "nat \<Rightarrow> bool" where
  "isLineTerminator c \<longleftrightarrow> c \<in> {10, 13, 8232, 8233}"

text \<open>The capture of \<open>/^qmd:\/\/[^/]+\/(.+)$/\<close>: after \<open>qmd://\<close>, a non-empty run
  without a slash, a slash, and a non-empty rest without a line terminator.\<close>

definition matchQmdSource :: "jsstring \<Rightarrow> jsstring option" where
  "matchQmdSource s =
     (if prefix (js ''qmd://'') s then
        let r = drop 6 s;
            coll = takeWhile (\<lambda>c. c \<noteq> 47) r;
            rest = dropWhile (\<lambda>c. c \<noteq> 47) r
        in if coll \<noteq> [] \<and> rest \<noteq> [] \<and> tl rest \<noteq> []
              \<and> list_all (\<lambda>c. \<not> isLineTerminator c) (tl rest)
           then Some (tl rest) else None
      else None)"

text \<open>\<open>decodeURIComponent\<close>, as ECMAScript defines it. First the escapes: every
  percent sign must be followed by two hexadecimal digits, which give a byte; anything
  else throws (\<open>None\<close>). \<open>Inl\<close> is a code unit that stood for itself, \<open>Inr\<close> a byte.\<close>

definition hexDigit :: "nat \<Rightarrow> nat option" where
  "hexDigit c =
     (if 48 \<le> c \<and> c \<le> 57 then Some (c - 48)
      else if 65 \<le> c \<and> c \<le> 70 then Some (c - 55)
      else if 97 \<le> c \<and> c \<le> 102 then Some (c - 87)
      else None)"

fun percentBytes :: "jsstring \<Rightarrow> (nat + nat) list option" where
  "percentBytes [] = Some []"
| "percentBytes (c # cs) =
     (if c = 37 then
        (case cs of
           h1 # h2 # rest \<Rightarrow>
             (case (hexDigit h1, hexDigit h2) of
                (Some a, Some b) \<Rightarrow> map_option ((#) (Inr (16 * a + b))) (percentBytes rest)
              | _ \<Rightarrow> None)
         | _ \<Rightarrow> None)
      else map_option ((#) (Inl c)) (percentBytes cs))"

text \<open>Then the bytes: a byte below 128 is its character; a lead byte takes the
  continuation bytes that follow it, which must be escapes too and must make a valid
  UTF-8 encoding of a code point (not overlong, not a surrogate, at most U+10FFFF); the
  code point is written in UTF-16.\<close>

definition isCont :: "nat \<Rightarrow> bool" where
  "isCont b \<longleftrightarrow> 128 \<le> b \<and> b \<le> 191"

definition utf16 :: "nat \<Rightarrow> jsstring" where
  "utf16 cp =
     (if cp < 65536 then [cp]
      else [55296 + (cp - 65536) div 1024, 56320 + (cp - 65536) mod 1024])"

fun utf8Decode :: "(nat + nat) list \<Rightarrow> jsstring option" where
  "utf8Decode [] = Some []"
| "utf8Decode (Inl c # ts) = map_option ((#) c) (utf8Decode ts)"
| "utf8Decode (Inr b # ts) =
     (if b < 128 then map_option ((#) b) (utf8Decode ts)
      else if 194 \<le> b \<and> b \<le> 223 then
        (case ts of
           Inr c1 # r \<Rightarrow>
             if isCont c1
             then map_option ((@) (utf16 ((b - 192) * 64 + (c1 - 128)))) (utf8Decode r)
             else None
         | _ \<Rightarrow> None)
      else if 224 \<le> b \<and> b \<le> 239 then
        (case ts of
           Inr c1 # Inr c2 # r \<Rightarrow>
             if isCont c1 \<and> isCont c2 \<and> (b = 224 \<longrightarrow> 160 \<le> c1) \<and> (b = 237 \<longrightarrow> c1 \<le> 159)
             then map_option
                    ((@) (utf16 ((b - 224) * 4096 + (c1 - 128) * 64 + (c2 - 128))))
                    (utf8Decode r)
             else None
         | _ \<Rightarrow> None)
      else if 240 \<le> b \<and> b \<le> 244 then
        (case ts of
           Inr c1 # Inr c2 # Inr c3 # r \<Rightarrow>
             if isCont c1 \<and> isCont c2 \<and> isCont c3
                \<and> (b = 240 \<longrightarrow> 144 \<le> c1) \<and> (b = 244 \<longrightarrow> c1 \<le> 143)
             then map_option
                    ((@) (utf16 ((b - 240) * 262144 + (c1 - 128) * 4096
                                  + (c2 - 128) * 64 + (c3 - 128))))
                    (utf8Decode r)
             else None
         | _ \<Rightarrow> None)
      else None)"

definition decodeURIComponent :: "jsstring \<Rightarrow> jsstring option" where
  "decodeURIComponent s = (case percentBytes s of None \<Rightarrow> None | Some ts \<Rightarrow> utf8Decode ts)"

text \<open>\<open>loadTurnSectionsFromSource\<close>: \<open>decodeURIComponent\<close> stands outside the
  \<open>try\<close>, so its \<open>URIError\<close> leaves the function; a missing or unreadable file gives
  \<open>null\<close>.\<close>

definition loadTurnSectionsFromSource ::
  "platform \<Rightarrow> jsstring \<Rightarrow> jsstring \<Rightarrow> jserror + TurnSections option" where
  "loadTurnSectionsFromSource P src agentId =
     (case matchQmdSource src of
        None \<Rightarrow> Inr None
      | Some m1 \<Rightarrow>
          (case decodeURIComponent m1 of
             None \<Rightarrow> Inl URIError
           | Some rel \<Rightarrow>
               let fullPath = pathJoin P (getAgentTurnsDir P agentId) rel
               in if \<not> existsSync P fullPath then Inr None
                  else (case readFileSync P fullPath of
                          None \<Rightarrow> Inr None
                        | Some content \<Rightarrow> Inr (Some (parseTurnSections content)))))"

text \<open>Regular expressions without captures, for \<open>RegExp.prototype.test\<close>: a character
  class is a predicate on code units, and a string is matched by taking derivatives.\<close>

datatype rx = Never | Eps | Cls "nat \<Rightarrow> bool" | Seq rx rx | Alt rx rx | Star rx

fun nullable :: "rx \<Rightarrow> bool" where
  "nullable Never = False"
| "nullable Eps = True"
| "nullable (Cls f) = False"
| "nullable (Seq r s) = (nullable r \<and> nullable s)"
| "nullable (Alt r s) = (nullable r \<or> nullable s)"
| "nullable (Star r) = True"

fun deriv :: "nat \<Rightarrow> rx \<Rightarrow> rx" where
  "deriv c Never = Never"
| "deriv c Eps = Never"
| "deriv c (Cls f) = (if f c then Eps else Never)"
| "deriv c (Seq r s) =
     (if nullable r then Alt (Seq (deriv c r) s) (deriv c s) else Seq (deriv c r) s)"
| "deriv c (Alt r s) = Alt (deriv c r) (deriv c s)"
| "deriv c (Star r) = Seq (deriv c r) (Star r)"

definition rxMatch :: "rx \<Rightarrow> jsstring \<Rightarrow> bool" where
  "rxMatch r s = nullable (foldl (\<lambda>q c. deriv c q) r s)"

definition anyChar :: rx where
  "anyChar = Cls (\<lambda>c. True)"

text \<open>\<open>re.test(s)\<close> for an expression without anchors: some substring matches.\<close>

definition rxTest :: "rx \<Rightarrow> jsstring \<Rightarrow> bool" where
  "rxTest r s = rxMatch (Seq (Star anyChar) (Seq r (Star anyChar))) s"

text \<open>A literal under the flag \<open>i\<close>, written in lower case.\<close>

definition litCi :: "jsstring \<Rightarrow> rx" where
  "litCi w = foldr (\<lambda>c r. Seq (Cls (\<lambda>x. asciiLower x = c)) r) w Eps"

definition altList :: "rx list \<Rightarrow> rx" where
  "altList rs = foldr Alt rs Never"

text \<open>\<open>/\b[A-Z]{3,}(?:-[A-Z0-9]+){2,}\b/\<close>. The expression begins and ends with a
  word character, so \<open>\b\<close> says that the match is not preceded and not followed by a
  word character.\<close>

definition codePattern :: rx where
  "codePattern =
     (let upper = Cls (\<lambda>c. 65 \<le> c \<and> c \<le> 90);
          upnum = Cls (\<lambda>c. (65 \<le> c \<and> c \<le> 90) \<or> (48 \<le> c \<and> c \<le> 57));
          seg = Seq (Cls (\<lambda>c. c = 45)) (Seq upnum (Star upnum));
          nonword = Cls (\<lambda>c. \<not> isWordChar c)
      in Seq (Alt Eps (Seq (Star anyChar) nonword))
           (Seq upper (Seq upper (Seq upper (Seq (Star upper)
              (Seq seg (Seq seg (Seq (Star seg)
                 (Alt Eps (Seq nonword (Star anyChar)))))))))))"

definition codePatternTest :: "jsstring \<Rightarrow> bool" where
  "codePatternTest s = rxMatch codePattern s"

text \<open>The cue words: U+4EE3 U+53F7, \<open>key\<close>, \<open>code\<close>, U+662F, U+559C U+6B22, \<open>likes?\<close>.\<close>

definition cuePattern :: rx where
  "cuePattern =
     altList [litCi [20195, 21495], litCi (js ''key''), litCi (js ''code''), litCi [26159],
              litCi [21916, 27426],
              Seq (litCi (js ''like'')) (Alt (litCi (js ''s'')) Eps)]"

text \<open>The low-confidence phrases: U+4E0D U+77E5 U+9053; U+6CA1 U+6709 \<open>.*\<close> U+4FE1 U+606F;
  U+65E0 U+6CD5; U+4E0D U+6E05 U+695A; and the four English phrases.\<close>

definition lowConfidencePattern :: rx where
  "lowConfidencePattern =
     altList [litCi [19981, 30693, 36947],
              Seq (litCi [27809, 26377])
                (Seq (Star (Cls (\<lambda>c. \<not> isLineTerminator c))) (litCi [20449, 24687])),
              litCi [26080, 27861],
              litCi [19981, 28165, 26970],
              litCi (js ''need more context''),
              litCi (js ''don't have any information''),
              litCi (js ''i don't have''),
              litCi (js ''not enough information'')]"

definition isLowConfidenceAnswer :: "jsstring \<Rightarrow> bool" where
  "isLowConfidenceAnswer text = rxTest lowConfidencePattern text"

text \<open>\<open>s.match(/[a-z0-9_-]{2,}|[\u4e00-\u9fff]{1,3}/g) || []\<close>: from the left, the
  longest run of two or more identifier characters, else up to three CJK ideographs,
  else one code unit further.\<close>

definition isCjk :: "nat \<Rightarrow> bool" where
  "isCjk c \<longleftrightarrow> 19968 \<le> c \<and> c \<le> 40959"

function matchTerms :: "jsstring \<Rightarrow> jsstring list" where
  "matchTerms [] = []"
| "matchTerms (c # cs) =
     (let run = takeWhile isIdChar (c # cs)
      in if 2 \<le> length run then run # matchTerms (drop (length run) (c # cs))
         else
           let cjk = takeWhile isCjk (take 3 (c # cs))
           in if cjk \<noteq> [] then cjk # matchTerms (drop (length cjk) (c # cs))
              else matchTerms cs)"
  by pat_completeness auto
termination
  by (relation "measure length") auto

text \<open>\<open>Array.from(new Set(xs))\<close>: the first occurrence of each element, in order.\<close>

definition uniqueInOrder :: "jsstring list \<Rightarrow> jsstring list" where
  "uniqueInOrder xs = rev (remdups (rev xs))"

text \<open>\<open>score += d\<close> for a finite \<open>d\<close>, and the comparator \<open>b.score - a.score\<close>.\<close>

fun addNum :: "jsnum \<Rightarrow> real \<Rightarrow> jsnum" where
  "addNum (Fin a) d = Fin (a + d)"
| "addNum n d = n"

fun subNum :: "jsnum \<Rightarrow> jsnum \<Rightarrow> jsnum" where
  "subNum (Fin a) (Fin b) = Fin (a - b)"
| "subNum NaN y = NaN"
| "subNum x NaN = NaN"
| "subNum PosInf PosInf = NaN"
| "subNum NegInf NegInf = NaN"
| "subNum PosInf y = PosInf"
| "subNum NegInf y = NegInf"
| "subNum (Fin a) PosInf = NegInf"
| "subNum (Fin a) NegInf = PosInf"

fun isPositive :: "jsnum \<Rightarrow> bool" where
  "isPositive (Fin r) = (0 < r)"
| "isPositive PosInf = True"
| "isPositive n = False"

text \<open>What the callback of \<open>results.map\<close> does with one hit.\<close>

definition hydrateResult ::
  "platform \<Rightarrow> jsstring list \<Rightarrow> jsstring \<Rightarrow> QmdResult \<Rightarrow> jserror + QmdResult" where
  "hydrateResult P terms agentId result =
     (case loadTurnSectionsFromSource P (source result) agentId of
        Inl e \<Rightarrow> Inl e
      | Inr None \<Rightarrow>
          Inr \<lparr> score = score result, snippet = snippet result, source = source result \<rparr>
      | Inr (Some sections) \<Rightarrow>
          if assistant sections = []
          then Inr \<lparr> score = score result, snippet = snippet result, source = source result \<rparr>
          else
            let usr = normalizeInline (user sections);
                asst = normalizeInline (assistant sections);
                snip = (if asst \<noteq> []
                        then js ''User: '' @ truncateInline usr 180 @ [10]
                               @ js ''Assistant: '' @ truncateInline asst 260
                        else snippet result);
                s1 = (if codePatternTest asst then addNum (score result) 0.5 else score result);
                s2 = (if rxTest cuePattern asst then addNum s1 0.2 else s1);
                s3 = (if isLowConfidenceAnswer asst then addNum s2 (- 0.5) else s2);
                hay = toLowerCase P (usr @ [32] @ asst);
                s4 = foldl (\<lambda>s t. if includes_str hay t then addNum s 0.04 else s) s3 terms
            in Inr \<lparr> score = s4, snippet = snip, source = source result \<rparr>)"

text \<open>\<open>results.map(f)\<close> for a callback that can throw.\<close>

fun mapResults :: "(QmdResult \<Rightarrow> jserror + QmdResult) \<Rightarrow> QmdResult list \<Rightarrow> jserror + QmdResult list" where
  "mapResults f [] = Inr []"
| "mapResults f (x # xs) =
     (case f x of
        Inl e \<Rightarrow> Inl e
      | Inr y \<Rightarrow> (case mapResults f xs of Inl e \<Rightarrow> Inl e | Inr ys \<Rightarrow> Inr (y # ys)))"

text \<open>\<open>sort((a, b) => b.score - a.score)\<close>, a stable sort: an element goes behind those
  the comparator puts strictly before it.\<close>

fun insertByScore :: "QmdResult \<Rightarrow> QmdResult list \<Rightarrow> QmdResult list" where
  "insertByScore x [] = [x]"
| "insertByScore x (y # ys) =
     (if isPositive (subNum (score y) (score x)) then y # insertByScore x ys else x # y # ys)"

definition sortByScore :: "QmdResult list \<Rightarrow> QmdResult list" where
  "sortByScore xs = foldr insertByScore xs []"

definition rerankAndHydrateResults ::
  "platform \<Rightarrow> QmdResult list \<Rightarrow> jsstring \<Rightarrow> jsstring \<Rightarrow> jserror + QmdResult list" where
  "rerankAndHydrateResults P results message agentId =
     (if results = [] then Inr results
      else
        let terms = uniqueInOrder (matchTerms (toLowerCase P message))
        in (case mapResults (hydrateResult P terms agentId) results of
              Inl e \<Rightarrow> Inl e
            | Inr rs \<Rightarrow> Inr (sortByScore rs)))"


section \<open>Queries and enrichment\<close>

definition searchArgs ::
  "platform \<Rightarrow> jsstring \<Rightarrow> jsstring \<Rightarrow> jsstring \<Rightarrow> jsstring \<Rightarrow> QmdConfig \<Rightarrow> jsstring list" where
  "searchArgs P verb q collectionName n qmdCfg =
     [verb, q, js ''--json'', js ''-c'', collectionName, js ''-n'', n,
      js ''--min-score'', numToString P (Fin (minScore qmdCfg))]"

text \<open>The loop of \<open>quickHasLexicalHit\<close> over the variants still to try.\<close>

fun quickHitLoop ::
  "platform \<Rightarrow> mstate \<Rightarrow> jsstring \<Rightarrow> QmdConfig \<Rightarrow> jsstring list \<Rightarrow> (jserror + bool) \<times> mstate" where
  "quickHitLoop P st collectionName qmdCfg [] = (Inr False, st)"
| "quickHitLoop P st collectionName qmdCfg (q # rest) =
     (case runCommand P st
             \<lparr> cmd = commandOr st (js ''qmd''),
               args = searchArgs P (js ''search'') q collectionName (js ''1'') qmdCfg,
               timeoutMs = precheckTimeoutMs qmdCfg, extraEnv = [] \<rparr> of
        (Inl msg, st') \<Rightarrow> (Inl (CommandError msg), st')
      | (Inr out, st') \<Rightarrow>
          (case parseQmdResults (JSON_parse P) (numToString P) (objToString P) out of
             Inl e \<Rightarrow> (Inl e, st')
           | Inr hits \<Rightarrow>
               if hits \<noteq> [] then (Inr True, st')
               else quickHitLoop P st' collectionName qmdCfg rest))"

definition quickHasLexicalHit ::
  "platform \<Rightarrow> mstate \<Rightarrow> jsstring \<Rightarrow> jsstring \<Rightarrow> QmdConfig \<Rightarrow> (jserror + bool) \<times> mstate" where
  "quickHasLexicalHit P st message collectionName qmdCfg =
     quickHitLoop P st collectionName qmdCfg (buildLexicalQueryVariants message)"

record QueryResult =
  results :: "QmdResult list"
  query :: jsstring

text \<open>The loop of \<open>runBm25WithVariants\<close>, with \<open>lastQuery\<close>.\<close>

fun bm25Loop ::
  "platform \<Rightarrow> mstate \<Rightarrow> jsstring \<Rightarrow> QmdConfig \<Rightarrow> jsstring \<Rightarrow> jsstring list
     \<Rightarrow> (jserror + QueryResult) \<times> mstate" where
  "bm25Loop P st collectionName qmdCfg lastQuery [] =
     (Inr \<lparr> results = [], query = lastQuery \<rparr>, st)"
| "bm25Loop P st collectionName qmdCfg lastQuery (q # rest) =
     (case runCommand P st
             \<lparr> cmd = commandOr st (js ''qmd''),
               args = searchArgs P (js ''search'') q collectionName
                        (numToString P (Fin (topK qmdCfg))) qmdCfg,
               timeoutMs = searchTimeoutMs qmdCfg, extraEnv = [] \<rparr> of
        (Inl msg, st') \<Rightarrow> (Inl (CommandError msg), st')
      | (Inr out, st') \<Rightarrow>
          (case parseQmdResults (JSON_parse P) (numToString P) (objToString P) out of
             Inl e \<Rightarrow> (Inl e, st')
           | Inr rs \<Rightarrow>
               if rs \<noteq> [] then (Inr \<lparr> results = rs, query = q \<rparr>, st')
               else bm25Loop P st' collectionName qmdCfg q rest))"

definition runBm25WithVariants ::
  "platform \<Rightarrow> mstate \<Rightarrow> jsstring \<Rightarrow> jsstring \<Rightarrow> QmdConfig \<Rightarrow> (jserror + QueryResult) \<times> mstate" where
  "runBm25WithVariants P st message collectionName qmdCfg =
     bm25Loop P st collectionName qmdCfg message (buildLexicalQueryVariants message)"

text \<open>The precheck with its own \<open>try\<close>/\<open>catch\<close>: the enrichment goes on only when the
  precheck is off or finds a hit; an error in it ends the enrichment like a miss.\<close>

definition precheckGate ::
  "platform \<Rightarrow> mstate \<Rightarrow> jsstring \<Rightarrow> jsstring \<Rightarrow> QmdConfig \<Rightarrow> bool \<times> mstate" where
  "precheckGate P st message collectionName qmdCfg =
     (if quickPrecheckEnabled qmdCfg then
        (case quickHasLexicalHit P st message collectionName qmdCfg of
           (Inl e, st') \<Rightarrow> (False, st')
         | (Inr hasQuickHit, st') \<Rightarrow> (hasQuickHit, st'))
      else (True, st))"

text \<open>The query in the mode chosen: one \<open>vsearch\<close> call with the verbatim message, or
  the lexical variants.\<close>

definition runQuery ::
  "platform \<Rightarrow> mstate \<Rightarrow> retrievalMode \<Rightarrow> jsstring \<Rightarrow> jsstring \<Rightarrow> QmdConfig
     \<Rightarrow> (jserror + QueryResult) \<times> mstate" where
  "runQuery P st mode message collectionName qmdCfg =
     (if useVsearch mode then
        (case runCommand P st
                \<lparr> cmd = commandOr st (js ''qmd''),
                  args = searchArgs P (js ''vsearch'') message collectionName
                           (numToString P (Fin (topK qmdCfg))) qmdCfg,
                  timeoutMs = vectorSearchTimeoutMs qmdCfg,
                  extraEnv = (if disableQueryExpansion qmdCfg
                              then [(js ''QMD_VSEARCH_DISABLE_EXPANSION'', js ''1'')] else []) \<rparr> of
           (Inl msg, st') \<Rightarrow> (Inl (CommandError msg), st')
         | (Inr out, st') \<Rightarrow>
             (case parseQmdResults (JSON_parse P) (numToString P) (objToString P) out of
                Inl e \<Rightarrow> (Inl e, st')
              | Inr rs \<Rightarrow> (Inr \<lparr> results = rs, query = message \<rparr>, st')))
      else runBm25WithVariants P st message collectionName qmdCfg)"

text \<open>The last part of the \<open>try\<close> block, from the query result on.\<close>

definition composeEnriched ::
  "platform \<Rightarrow> QmdConfig \<Rightarrow> jsstring \<Rightarrow> jsstring \<Rightarrow> QmdResult list \<Rightarrow> jserror + jsstring" where
  "composeEnriched P qmdCfg agentId message found =
     (if found = [] then Inr message
      else
        (case rerankAndHydrateResults P found message agentId of
           Inl e \<Rightarrow> Inl e
         | Inr rankedResults \<Rightarrow>
             let memoryBlock = formatMemoryPrompt (toFixed3 P) rankedResults (maxChars qmdCfg)
             in if memoryBlock = [] then Inr message else Inr (message @ memoryBlock)))"

text \<open>The \<open>try\<close> block of \<open>enrichMessageWithMemory\<close>: \<open>Inl\<close> is an error on its way to
  the \<open>catch\<close>, \<open>Inr\<close> the string returned from inside the block.\<close>

definition enrichBody ::
  "platform \<Rightarrow> mstate \<Rightarrow> int \<Rightarrow> jsstring \<Rightarrow> jsstring \<Rightarrow> QmdConfig \<Rightarrow> (jserror + jsstring) \<times> mstate" where
  "enrichBody P st now agentId message qmdCfg =
     (case ensureCollection P st agentId of
        (Inl e, st1) \<Rightarrow> (Inl e, st1)
      | (Inr collectionName, st1) \<Rightarrow>
          (case maybeUpdateCollection P st1 now collectionName (updateIntervalSeconds qmdCfg) of
             (Inl e, st2) \<Rightarrow> (Inl e, st2)
           | (Inr u, st2) \<Rightarrow>
               (case precheckGate P st2 message collectionName qmdCfg of
                  (False, st3) \<Rightarrow> (Inr message, st3)
                | (True, st3) \<Rightarrow>
                    (case resolveRetrievalMode P st3 qmdCfg of
                       (mode, st4) \<Rightarrow>
                         (case runQuery P st4 mode message collectionName qmdCfg of
                            (Inl e, st5) \<Rightarrow> (Inl e, st5)
                          | (Inr qr, st5) \<Rightarrow>
                              (composeEnriched P qmdCfg agentId message (results qr), st5))))))"

text \<open>\<open>enrichMessageWithMemory\<close>: the string it resolves to, and the state it leaves.\<close>

definition enrichMessageWithMemory ::
  "platform \<Rightarrow> mstate \<Rightarrow> int \<Rightarrow> jsstring \<Rightarrow> jsstring \<Rightarrow> jsobject \<Rightarrow> jsstring \<Rightarrow> jsstring \<times> mstate" where
  "enrichMessageWithMemory P st now agentId message settings sourceChannel =
     (let qmdCfg = getQmdConfig settings
      in if \<not> enabled qmdCfg then (message, st)
         else if \<not> shouldUseMemoryForChannel sourceChannel then (message, st)
         else
           (case isQmdAvailable P st (command qmdCfg) of
              (hasQmd, st1) \<Rightarrow>
                if \<not> hasQmd then (message, st1\<lparr> qmdUnavailableLogged := True \<rparr>)
                else
                  (case enrichBody P st1 now agentId message qmdCfg of
                     (Inl e, st2) \<Rightarrow> (message, st2)
                   | (Inr s, st2) \<Rightarrow> (s, st2))))"


section \<open>Inputs for the examples\<close>

text \<open>A turn for the examples.\<close>

definition exampleTurn :: turnParams where
  "exampleTurn =
     \<lparr> turnAgentId = js ''a'', turnAgentName = js ''Bot'', turnChannel = js ''telegram'',
       turnSender = js ''u'', turnMessageId = js ''42'', userMessage = js '' hi'',
       agentResponse = js ''hello'', timestampMs = Some 1 \<rparr>"


text \<open>A backend for the examples that has one hit: every command succeeds and prints the
  JSON text \<open>[{"score":1,"snippet":"The key is ABC-123-XYZ","path":"qmd://tinyclaw-a/t.md"}]\<close>,
  which \<open>JSON.parse\<close> turns into the array with that one row. And the settings object
  \<open>{memory: {enabled: true}}\<close>.\<close>

definition quoted :: "jsstring \<Rightarrow> jsstring" where
  "quoted s = 34 # s @ [34]"

definition exampleOutput :: jsstring where
  "exampleOutput =
     js ''[{'' @ quoted (js ''score'') @ js '':1,'' @ quoted (js ''snippet'') @ js '':''
       @ quoted (js ''The key is ABC-123-XYZ'') @ js '','' @ quoted (js ''path'') @ js '':''
       @ quoted (js ''qmd://tinyclaw-a/t.md'') @ js ''}]''"

definition exampleParsed :: jsval where
  "exampleParsed =
     JArr [JObj [(js ''score'', JNum (Fin 1)),
                 (js ''snippet'', JStr (js ''The key is ABC-123-XYZ'')),
                 (js ''path'', JStr (js ''qmd://tinyclaw-a/t.md''))]]"

definition hitPlatform :: platform where
  "hitPlatform =
     examplePlatform
       \<lparr> spawnResult := (\<lambda>n c. Inr exampleOutput),
         JSON_parse := (\<lambda>s. if s = exampleOutput then Some exampleParsed else None) \<rparr>"

definition exampleSettings :: jsobject where
  "exampleSettings = [(js ''memory'', JObj [(js ''enabled'', JBool True)])]"


text \<open>A backend for the examples whose search commands time out: the probe, the
  registration and the refresh succeed, every other command is killed at its timeout.
  And the settings object \<open>{memory: {enabled: true, qmd: {quick_precheck_enabled: false}}}\<close>.\<close>

definition timeoutPlatform :: platform where
  "timeoutPlatform =
     examplePlatform
       \<lparr> spawnResult :=
           (\<lambda>n c. if args c \<noteq> [] \<and> hd (args c) \<in> {js ''--help'', js ''collection'', js ''update''}
                  then Inr [] else Inl (js ''Command timed out'')) \<rparr>"

definition noPrecheckSettings :: jsobject where
  "noPrecheckSettings =
     [(js ''memory'',
       JObj [(js ''enabled'', JBool True),
             (js ''qmd'', JObj [(js ''quick_precheck_enabled'', JBool False)])])]"


section \<open>Properties\<close>

subsection \<open>Configuration floors\<close>

lemma clampedOr_floor: "lo \<le> d \<Longrightarrow> lo \<le> clampedOr lo d v"
  by (simp add: clampedOr_def split: option.split)

text \<open>
  Claim C4, as the code has it. Six of the seven numeric fields are clamped to a positive
  floor: \<open>topK\<close> to 1, \<open>maxChars\<close> to 500, \<open>updateIntervalSeconds\<close> to 10,
  \<open>precheckTimeoutMs\<close> to 100, \<open>searchTimeoutMs\<close> to 500 and \<open>vectorSearchTimeoutMs\<close>
  to 1000. The seventh, \<open>minScore\<close>, is not clamped: it is the configured \<open>min_score\<close>
  when that is a finite number and 0 otherwise.
\<close>

theorem getQmdConfig_floors:
  "1 \<le> topK (getQmdConfig settings)
   \<and> 500 \<le> maxChars (getQmdConfig settings)
   \<and> 10 \<le> updateIntervalSeconds (getQmdConfig settings)
   \<and> 100 \<le> precheckTimeoutMs (getQmdConfig settings)
   \<and> 500 \<le> searchTimeoutMs (getQmdConfig settings)
   \<and> 1000 \<le> vectorSearchTimeoutMs (getQmdConfig settings)
   \<and> minScore (getQmdConfig settings) =
       (case finiteNum (optProp (optProp (getProp (JObj settings) (js ''memory'')) (js ''qmd''))
                          (js ''min_score'')) of
          Some r \<Rightarrow> r | None \<Rightarrow> 0)"
  by (simp add: getQmdConfig_def Let_def clampedOr_floor DEFAULT_TOP_K_def DEFAULT_MIN_SCORE_def
      DEFAULT_MAX_CHARS_def DEFAULT_UPDATE_INTERVAL_SECONDS_def DEFAULT_PRECHECK_TIMEOUT_MS_def
      DEFAULT_TEXT_SEARCH_TIMEOUT_MS_def DEFAULT_VECTOR_SEARCH_TIMEOUT_MS_def
      split: option.split)

text \<open>
  Claim C4 as stated fails for \<open>minScore\<close>: with no memory settings at all it is zero, and
  a configured negative threshold is kept.
\<close>

theorem getQmdConfig_minScore_counterexample:
  "\<not> 0 < minScore (getQmdConfig [])
   \<and> minScore (getQmdConfig
        [(js ''memory'', JObj [(js ''qmd'', JObj [(js ''min_score'', JNum (Fin (- 5)))])])]) = - 5"
  by (simp add: getQmdConfig_def Let_def DEFAULT_MIN_SCORE_def js_def)

subsection \<open>Retrieval mode\<close>

lemma resolveRetrievalMode_cases:
  "useSemanticSearch qmdCfg \<and> \<not> allowUnsafeVsearch qmdCfg \<and> \<not> disableQueryExpansion qmdCfg
     \<longrightarrow> label (fst (resolveRetrievalMode P st qmdCfg)) = Qmd_bm25"
  "useSemanticSearch qmdCfg \<and> \<not> allowUnsafeVsearch qmdCfg \<and> disableQueryExpansion qmdCfg
     \<and> \<not> fst (isDisableExpansionSupported P st)
     \<longrightarrow> label (fst (resolveRetrievalMode P st qmdCfg)) = Qmd_bm25"
  "useSemanticSearch qmdCfg \<and> disableQueryExpansion qmdCfg \<and> fst (isDisableExpansionSupported P st)
     \<longrightarrow> label (fst (resolveRetrievalMode P st qmdCfg)) = Qmd_vsearch"
  "useSemanticSearch qmdCfg \<and> allowUnsafeVsearch qmdCfg
     \<longrightarrow> label (fst (resolveRetrievalMode P st qmdCfg)) = Qmd_vsearch"
  "\<not> useSemanticSearch qmdCfg \<longrightarrow> label (fst (resolveRetrievalMode P st qmdCfg)) = Qmd_bm25"
  by (auto simp: resolveRetrievalMode_def Let_def split: prod.splits)

text \<open>
  Claim C2. Vector search is chosen exactly when semantic search is enabled and either the
  unsafe override is set, or query expansion is configured off and the capability check
  on the resolved backend answers yes. The label follows the choice.
\<close>

theorem resolveRetrievalMode_policy:
  "useVsearch (fst (resolveRetrievalMode P st qmdCfg)) =
     (useSemanticSearch qmdCfg \<and>
       (allowUnsafeVsearch qmdCfg \<or>
         (disableQueryExpansion qmdCfg \<and> fst (isDisableExpansionSupported P st))))
   \<and> label (fst (resolveRetrievalMode P st qmdCfg)) =
       (if useVsearch (fst (resolveRetrievalMode P st qmdCfg)) then Qmd_vsearch else Qmd_bm25)"
  by (auto simp: resolveRetrievalMode_def Let_def split: prod.splits)

subsection \<open>Lexical query variants\<close>

lemma dropWhile_all: "(\<forall>x\<in>set (dropWhile P s). P x) \<longleftrightarrow> (\<forall>x\<in>set s. P x)"
proof
  assume a: "\<forall>x\<in>set (dropWhile P s). P x"
  have "dropWhile P s = []"
  proof (rule ccontr)
    assume ne: "dropWhile P s \<noteq> []"
    then have "\<not> P (hd (dropWhile P s))" by (rule hd_dropWhile)
    moreover from ne have "hd (dropWhile P s) \<in> set (dropWhile P s)" by simp
    ultimately show False using a by blast
  qed
  then show "\<forall>x\<in>set s. P x" by (simp add: dropWhile_eq_Nil_conv)
next
  assume "\<forall>x\<in>set s. P x"
  then show "\<forall>x\<in>set (dropWhile P s). P x" by (auto dest: set_dropWhileD)
qed

lemma trim_Nil_iff: "trim s = [] \<longleftrightarrow> (\<forall>c\<in>set s. isWhiteSpace c)"
  by (simp add: trim_def dropWhile_eq_Nil_conv dropWhile_all)

lemma zhParticles_heads: "\<forall>a\<in>set zhParticles. a \<noteq> [] \<and> \<not> isWhiteSpace (hd a)"
  by (simp add: zhParticles_def isWhiteSpace_def)

lemma ws_not_particle: "isWhiteSpace c \<Longrightarrow> find (\<lambda>a. prefix a (c # cs)) zhParticles = None"
proof -
  assume w: "isWhiteSpace c"
  have "\<not> prefix a (c # cs)" if "a \<in> set zhParticles" for a
  proof
    assume p: "prefix a (c # cs)"
    from that zhParticles_heads have "a \<noteq> []" "\<not> isWhiteSpace (hd a)" by auto
    with p w show False by (cases a) auto
  qed
  then show ?thesis by (auto simp: find_None_iff)
qed

lemma replaceAlts_ws: "\<forall>c\<in>set s. isWhiteSpace c \<Longrightarrow> replaceAlts zhParticles 0 s = s"
  by (induction s) (simp_all add: ws_not_particle)

lemma ws_not_word: "isWhiteSpace c \<Longrightarrow> \<not> isWordChar c"
  by (auto simp: isWhiteSpace_def isWordChar_def)

lemma ws_asciiLower: "isWhiteSpace c \<Longrightarrow> asciiLower c = c"
  by (auto simp: isWhiteSpace_def asciiLower_def)

lemma enQuestionWords_heads: "\<forall>w\<in>set enQuestionWords. w \<noteq> [] \<and> isWordChar (hd w)"
  by (simp add: enQuestionWords_def js_def isWordChar_def)

lemma ws_not_question_word:
  "isWhiteSpace c \<Longrightarrow> find (\<lambda>w. wordAt w p (c # cs)) enQuestionWords = None"
proof -
  assume w: "isWhiteSpace c"
  have "\<not> wordAt a p (c # cs)" if "a \<in> set enQuestionWords" for a
  proof
    assume m: "wordAt a p (c # cs)"
    from that enQuestionWords_heads have "a \<noteq> []" "isWordChar (hd a)" by auto
    moreover from m have "prefix a (asciiLower c # map asciiLower cs)"
      by (simp add: wordAt_def ciPrefix_def)
    ultimately have "isWordChar (asciiLower c)" by (cases a) auto
    with w show False by (simp add: ws_asciiLower ws_not_word)
  qed
  then show ?thesis by (auto simp: find_None_iff)
qed

lemma replaceWords_ws:
  "\<forall>c\<in>set s. isWhiteSpace c \<Longrightarrow> replaceWords enQuestionWords 0 p s = s"
  by (induction s arbitrary: p) (simp_all add: ws_not_question_word)

lemma map_ws_id:
  "\<forall>c\<in>set s. isWhiteSpace c \<Longrightarrow> (\<And>c. isWhiteSpace c \<Longrightarrow> \<not> Q c)
   \<Longrightarrow> map (\<lambda>c. if Q c then 32 else c) s = s"
  by (induction s) auto

lemma ws_not_punct: "isWhiteSpace c \<Longrightarrow> \<not> isPunct c"
  by (auto simp: isWhiteSpace_def isPunct_def)

lemma ws_not_hyphen: "isWhiteSpace c \<Longrightarrow> c \<noteq> 45"
  by (auto simp: isWhiteSpace_def)

lemma isWhiteSpace_32: "isWhiteSpace 32"
  by (simp add: isWhiteSpace_def)

lemma collapseWs_ws: "\<forall>c\<in>set s. isWhiteSpace c \<Longrightarrow> \<forall>c\<in>set (collapseWs b s). isWhiteSpace c"
  by (induction s arbitrary: b) (auto simp: isWhiteSpace_32)

lemma collapseWs_keeps: "c \<in> set s \<Longrightarrow> \<not> isWhiteSpace c \<Longrightarrow> c \<in> set (collapseWs b s)"
  by (induction s arbitrary: b) auto

lemma collapseWs_Nil_iff: "collapseWs False s = [] \<longleftrightarrow> s = []"
  by (cases s) auto

lemma trim_has_nonws: "trim v \<noteq> [] \<Longrightarrow> \<exists>c\<in>set (trim v). \<not> isWhiteSpace c"
proof -
  assume a: "trim v \<noteq> []"
  let ?y = "dropWhile isWhiteSpace (rev (dropWhile isWhiteSpace v))"
  from a have ne: "?y \<noteq> []" by (simp add: trim_def)
  then have "\<not> isWhiteSpace (hd ?y)" by (rule hd_dropWhile)
  moreover from ne have "hd ?y \<in> set ?y" by simp
  ultimately show ?thesis unfolding trim_def by (metis set_rev)
qed

lemma cleaned_nonblank:
  assumes "collapseWs False (trim v) \<noteq> []"
  shows "\<exists>c\<in>set (collapseWs False (trim v)). \<not> isWhiteSpace c"
proof -
  from assms have "trim v \<noteq> []" by (simp add: collapseWs_Nil_iff)
  then obtain c where "c \<in> set (trim v)" "\<not> isWhiteSpace c" using trim_has_nonws by blast
  then show ?thesis using collapseWs_keeps by blast
qed

lemma push_distinct: "distinct vs \<Longrightarrow> distinct (push vs v)"
  by (simp add: push_def Let_def)

lemma push_nonblank:
  "\<forall>x\<in>set vs. \<exists>c\<in>set x. \<not> isWhiteSpace c \<Longrightarrow> \<forall>x\<in>set (push vs v). \<exists>c\<in>set x. \<not> isWhiteSpace c"
  using cleaned_nonblank[of v] by (auto simp: push_def Let_def)

lemma push_extends: "\<exists>ys. push vs v = vs @ ys"
  by (simp add: push_def Let_def)

lemma push_blank: "\<forall>c\<in>set v. isWhiteSpace c \<Longrightarrow> push vs v = vs"
  using trim_Nil_iff[of v] by (simp add: push_def)

lemma variants_fold: "buildLexicalQueryVariants m = foldl push [] (variantCandidates m)"
  by (simp add: buildLexicalQueryVariants_def variantCandidates_def Let_def)

lemma foldl_push_distinct: "distinct vs \<Longrightarrow> distinct (foldl push vs cs)"
  by (induction cs arbitrary: vs) (simp_all add: push_distinct)

lemma foldl_push_nonblank:
  "\<forall>x\<in>set vs. \<exists>c\<in>set x. \<not> isWhiteSpace c
   \<Longrightarrow> \<forall>x\<in>set (foldl push vs cs). \<exists>c\<in>set x. \<not> isWhiteSpace c"
proof (induction cs arbitrary: vs)
  case Nil
  then show ?case by simp
next
  case (Cons c cs)
  from Cons.prems have "\<forall>x\<in>set (push vs c). \<exists>c\<in>set x. \<not> isWhiteSpace c"
    by (rule push_nonblank)
  then show ?case using Cons.IH by simp
qed

lemma foldl_push_extends: "\<exists>ys. foldl push vs cs = vs @ ys"
proof (induction cs arbitrary: vs)
  case Nil
  then show ?case by simp
next
  case (Cons c cs)
  obtain ys where 1: "push vs c = vs @ ys" using push_extends by blast
  obtain zs where "foldl push (push vs c) cs = push vs c @ zs" using Cons.IH by blast
  with 1 show ?case by simp
qed

lemma foldl_push_blank:
  "\<forall>v\<in>set cs. \<forall>c\<in>set v. isWhiteSpace c \<Longrightarrow> foldl push vs cs = vs"
  by (induction cs arbitrary: vs) (simp_all add: push_blank)

lemma candidates_blank:
  assumes "\<forall>c\<in>set m. isWhiteSpace c"
  shows "\<forall>v\<in>set (variantCandidates m). \<forall>c\<in>set v. isWhiteSpace c"
proof -
  have np: "map (\<lambda>c. if isPunct c then 32 else c) m = m"
    using assms by (rule map_ws_id) (rule ws_not_punct)
  have hy: "map (\<lambda>c. if c = 45 then 32 else c) m = m"
    using assms by (rule map_ws_id) (rule ws_not_hyphen)
  show ?thesis
    using assms collapseWs_ws[OF assms]
    by (simp add: variantCandidates_def np hy replaceAlts_ws replaceWords_ws)
qed

text \<open>
  Claim C5, as the code has it. Every candidate goes through \<open>push\<close>, which trims it,
  replaces each run of white space by one space, and drops it when nothing is left or
  when it is already in the list. So the list has no duplicates and no empty or
  white-space-only element; when the message has a character that is not white space
  its first element is the trimmed message with its white-space runs collapsed, and
  otherwise the list is empty.
\<close>

theorem buildLexicalQueryVariants_shape:
  "distinct (buildLexicalQueryVariants m)
   \<and> (\<forall>v\<in>set (buildLexicalQueryVariants m). v \<noteq> [] \<and> (\<exists>c\<in>set v. \<not> isWhiteSpace c))
   \<and> (if trim m = [] then buildLexicalQueryVariants m = []
      else \<exists>rest. buildLexicalQueryVariants m = collapseWs False (trim m) # rest)"
proof -
  have d: "distinct (buildLexicalQueryVariants m)"
    by (simp add: variants_fold foldl_push_distinct)
  have n: "\<forall>v\<in>set (buildLexicalQueryVariants m). \<exists>c\<in>set v. \<not> isWhiteSpace c"
    unfolding variants_fold by (rule foldl_push_nonblank) simp
  have h: "buildLexicalQueryVariants m = []" if "trim m = []"
  proof -
    from that have "\<forall>c\<in>set m. isWhiteSpace c" by (simp add: trim_Nil_iff)
    then show ?thesis unfolding variants_fold
      by (intro foldl_push_blank candidates_blank)
  qed
  have t: "\<exists>rest. buildLexicalQueryVariants m = collapseWs False (trim m) # rest" if "trim m \<noteq> []"
  proof -
    from that have c: "collapseWs False (trim m) \<noteq> []" by (simp add: collapseWs_Nil_iff)
    have "variantCandidates m = m # tl (variantCandidates m)"
      by (simp add: variantCandidates_def Let_def)
    then have "buildLexicalQueryVariants m = foldl push (push [] m) (tl (variantCandidates m))"
      unfolding variants_fold by (metis foldl_Cons)
    moreover have "push [] m = [collapseWs False (trim m)]" using c by (simp add: push_def Let_def)
    ultimately show ?thesis using foldl_push_extends[of "[collapseWs False (trim m)]"] by auto
  qed
  from d n h t show ?thesis by auto
qed

lemmas eval_defs = js_def trim_def isWhiteSpace_def isPunct_def zhParticles_def
  enQuestionWords_def wordAt_def ciPrefix_def wordBoundary_def isWordOpt_def isWordChar_def
  headOpt_def asciiLower_def

lemma variants_api_key:
  "buildLexicalQueryVariants (js ''what is the api key?'') =
     [js ''what is the api key?'', js ''what is the api key'', js ''is the api key'']"
proof -
  have c: "variantCandidates (js ''what is the api key?'') =
    [js ''what is the api key?'', js ''what is the api key '', js ''what is the api key '',
     js '' is the api key '', js ''what is the api key '']"
    by (simp add: variantCandidates_def Let_def eval_defs)
  show ?thesis
    unfolding variants_fold c by (simp add: push_def Let_def eval_defs)
qed

theorem buildLexicalQueryVariants_shape_witness:
  "distinct (buildLexicalQueryVariants (js ''what is the api key?''))
   \<and> buildLexicalQueryVariants (js ''what is the api key?'') =
       [js ''what is the api key?'', js ''what is the api key'', js ''is the api key'']
   \<and> trim (js ''what is the api key?'') \<noteq> []"
proof -
  have d: "distinct (buildLexicalQueryVariants (js ''what is the api key?''))"
    using buildLexicalQueryVariants_shape [of "js ''what is the api key?''"] by blast
  have t: "trim (js ''what is the api key?'') \<noteq> []"
    by (simp add: eval_defs)
  from d t variants_api_key show ?thesis by simp
qed

text \<open>
  Claim C5 as stated fails in its first part: the first element of the list for
  \<open>"a  b"\<close> (two spaces) is \<open>"a b"\<close>, not the trimmed message, and the list for a
  message of two spaces is empty, so it has no first element.
\<close>

theorem buildLexicalQueryVariants_first_counterexample:
  "hd (buildLexicalQueryVariants (js ''a  b'')) \<noteq> trim (js ''a  b'')
   \<and> buildLexicalQueryVariants (js ''  '') = []"
proof -
  have c: "variantCandidates (js ''a  b'') =
    [js ''a  b'', js ''a  b'', js ''a b'', js ''a b'', js ''a  b'']"
    by (simp add: variantCandidates_def Let_def eval_defs)
  have 1: "buildLexicalQueryVariants (js ''a  b'') = [js ''a b'']"
    unfolding variants_fold c by (simp add: push_def Let_def eval_defs)
  have c2: "variantCandidates (js ''  '') = [js ''  '', js ''  '', js '' '', js '' '', js ''  '']"
    by (simp add: variantCandidates_def Let_def eval_defs)
  have 2: "buildLexicalQueryVariants (js ''  '') = []"
    unfolding variants_fold c2 by (simp add: push_def Let_def eval_defs)
  have 3: "trim (js ''a  b'') = js ''a  b''"
    by (simp add: eval_defs)
  show ?thesis unfolding 1 2 3 by (simp add: js_def)
qed

subsection \<open>The memory prompt\<close>

lemma length_joinWith:
  "length (joinWith sep xs) = sum_list (map length xs) + length sep * (length xs - 1)"
  by (induction sep xs rule: joinWith.induct) simp_all

lemma packBlocks_budget:
  "packBlocks fmt maxCh i u rs \<noteq> []
   \<Longrightarrow> real (u + sum_list (map length (packBlocks fmt maxCh i u rs))) \<le> maxCh"
proof (induction rs arbitrary: i u)
  case Nil
  then show ?case by simp
next
  case (Cons r rs)
  let ?b = "snippetBlock fmt i r"
  from Cons.prems have fit: "\<not> real (u + length ?b) > maxCh"
    by (auto simp: Let_def split: if_splits)
  show ?case
  proof (cases "packBlocks fmt maxCh (Suc i) (u + length ?b) rs = []")
    case True
    with fit show ?thesis by (simp add: Let_def)
  next
    case False
    from Cons.IH[OF False] fit show ?thesis by (simp add: Let_def add.assoc)
  qed
qed

lemma packBlocks_prefix:
  "prefix (packBlocks fmt maxCh i u rs) (map2 (snippetBlock fmt) [i ..< i + length rs] rs)"
proof (induction rs arbitrary: i u)
  case Nil
  then show ?case by simp
next
  case (Cons r rs)
  have "[i ..< i + length (r # rs)] = i # [Suc i ..< Suc i + length rs]"
    by (simp add: upt_rec)
  then show ?case using Cons.IH[of "Suc i"] by (simp add: Let_def)
qed

lemma packBlocks_Nil_iff:
  "packBlocks fmt maxCh i u rs = [] \<longleftrightarrow>
     rs = [] \<or> real (u + length (snippetBlock fmt i (hd rs))) > maxCh"
  by (cases rs) (simp_all add: Let_def)

lemma packBlocks_hd:
  "packBlocks fmt maxCh i u rs \<noteq> [] \<Longrightarrow> hd (packBlocks fmt maxCh i u rs) = snippetBlock fmt i (hd rs)"
  by (cases rs) (auto simp: Let_def split: if_splits)

lemma memoryPreamble_nonempty: "memoryPreamble \<noteq> []"
  by (simp add: memoryPreamble_def)

lemma length_memoryPreamble: "length memoryPreamble = 135"
  by (simp add: memoryPreamble_def js_def)

lemma formatMemoryPrompt_eq:
  "formatMemoryPrompt fmt hits maxCh =
     (if packBlocks fmt maxCh 0 0 hits = [] then []
      else memoryPreamble @ joinWith [10, 10] (packBlocks fmt maxCh 0 0 hits))"
  by (cases hits) (simp_all add: formatMemoryPrompt_def memoryPreamble_def Let_def)

text \<open>
  Claim C3, as the code has it. The budget \<open>maxChars\<close> bounds the sum of the lengths of
  the blocks that are packed; the fixed preamble (135 code units) and the two line feeds
  between consecutive blocks are not counted. The result is empty exactly when there is
  no snippet or the first block alone is longer than the budget; otherwise it is the
  preamble followed by the packed blocks, which are the blocks of a prefix of the ranked
  snippets starting with the top-ranked one.
\<close>

theorem formatMemoryPrompt_budget:
  "(formatMemoryPrompt fmt hits maxCh = [] \<longleftrightarrow>
      hits = [] \<or> real (length (snippetBlock fmt 0 (hd hits))) > maxCh)
   \<and> (formatMemoryPrompt fmt hits maxCh \<noteq> [] \<longrightarrow>
        (let blocks = packBlocks fmt maxCh 0 0 hits in
           formatMemoryPrompt fmt hits maxCh = memoryPreamble @ joinWith [10, 10] blocks
           \<and> hd blocks = snippetBlock fmt 0 (hd hits)
           \<and> prefix blocks (map2 (snippetBlock fmt) [0 ..< length hits] hits)
           \<and> real (sum_list (map length blocks)) \<le> maxCh
           \<and> length (formatMemoryPrompt fmt hits maxCh) =
               length memoryPreamble + sum_list (map length blocks) + 2 * (length blocks - 1)))"
proof -
  let ?bs = "packBlocks fmt maxCh 0 0 hits"
  have e: "formatMemoryPrompt fmt hits maxCh = [] \<longleftrightarrow> ?bs = []"
    by (simp add: formatMemoryPrompt_eq memoryPreamble_nonempty)
  have 1: "formatMemoryPrompt fmt hits maxCh = [] \<longleftrightarrow>
      hits = [] \<or> real (length (snippetBlock fmt 0 (hd hits))) > maxCh"
    using packBlocks_Nil_iff[of fmt maxCh 0 0 hits] by (simp add: e)
  have 2: "formatMemoryPrompt fmt hits maxCh = memoryPreamble @ joinWith [10, 10] ?bs"
    if "?bs \<noteq> []" using that by (simp add: formatMemoryPrompt_eq)
  have 3: "real (sum_list (map length ?bs)) \<le> maxCh" if "?bs \<noteq> []"
    using packBlocks_budget[OF that] by simp
  have 4: "prefix ?bs (map2 (snippetBlock fmt) [0 ..< length hits] hits)"
    using packBlocks_prefix[of fmt maxCh 0 0 hits] by simp
  have 5: "length (formatMemoryPrompt fmt hits maxCh) =
             length memoryPreamble + sum_list (map length ?bs) + 2 * (length ?bs - 1)"
    if "?bs \<noteq> []" using that by (simp add: formatMemoryPrompt_eq length_joinWith)
  show ?thesis
    using 1 2 3 4 5 packBlocks_hd[of fmt maxCh 0 0 hits] by (simp add: e Let_def)
qed

theorem formatMemoryPrompt_budget_witness:
  "formatMemoryPrompt (\<lambda>n. js ''1.000'')
     [\<lparr> score = Fin 1, snippet = js ''abc'', source = [] \<rparr>] 500 =
     memoryPreamble @ js ''Snippet 1 (score=1.000):'' @ [10] @ js ''Source: unknown'' @ [10] @ js ''abc''
   \<and> real (length (js ''Snippet 1 (score=1.000):'' @ [10] @ js ''Source: unknown'' @ [10] @ js ''abc'')) \<le> 500"
proof -
  let ?fmt = "\<lambda>n::jsnum. js ''1.000''"
  let ?rs = "[\<lparr> score = Fin 1, snippet = js ''abc'', source = [] \<rparr>]"
  have b: "packBlocks ?fmt 500 0 0 ?rs =
             [js ''Snippet 1 (score=1.000):'' @ [10] @ js ''Source: unknown'' @ [10] @ js ''abc'']"
    by (simp add: snippetBlock_def js_def Let_def)
  have ne: "formatMemoryPrompt ?fmt ?rs 500 \<noteq> []"
    unfolding formatMemoryPrompt_eq b by (simp add: memoryPreamble_nonempty)
  from formatMemoryPrompt_budget [of ?fmt ?rs 500] ne
  have "formatMemoryPrompt ?fmt ?rs 500 =
          memoryPreamble @ joinWith [10, 10] (packBlocks ?fmt 500 0 0 ?rs)"
    unfolding Let_def by blast
  then show ?thesis unfolding b by (simp add: js_def)
qed

text \<open>
  Claim C3 as stated fails in its first part: with the budget 500 and one snippet whose
  block is exactly 500 code units long, the returned string has 635 code units.
\<close>

theorem formatMemoryPrompt_budget_counterexample:
  "length (formatMemoryPrompt (\<lambda>n. js ''1.000'')
     [\<lparr> score = Fin 1, snippet = replicate 459 97, source = [] \<rparr>] 500) = 635
   \<and> \<not> real (length (formatMemoryPrompt (\<lambda>n. js ''1.000'')
     [\<lparr> score = Fin 1, snippet = replicate 459 97, source = [] \<rparr>] 500)) \<le> 500"
  by (simp add: formatMemoryPrompt_eq length_memoryPreamble snippetBlock_def js_def Let_def)


subsection \<open>Refresh cooldown\<close>

lemma maybeUpdate_cases:
  "maybeUpdateCollection P st now name I = (r, st') \<Longrightarrow>
     (updateOutcomeOf P st now name I = Skipped \<and> r = Inr () \<and> st' = st
        \<and> real_of_int (now - lastUpdateOf st name) < I * 1000)
   \<or> (updateOutcomeOf P st now name I = Updated \<and> r = Inr ()
        \<and> I * 1000 \<le> real_of_int (now - lastUpdateOf st name)
        \<and> lastCollectionUpdateMs st' = (name, now) # lastCollectionUpdateMs st
        \<and> length (issued st') = Suc (length (issued st)))
   \<or> (updateOutcomeOf P st now name I = UpdateFailed \<and> (\<exists>msg. r = Inl (CommandError msg))
        \<and> I * 1000 \<le> real_of_int (now - lastUpdateOf st name)
        \<and> lastCollectionUpdateMs st' = lastCollectionUpdateMs st
        \<and> length (issued st') = Suc (length (issued st)))"
  by (auto simp: maybeUpdateCollection_def updateOutcomeOf_def runCommand_def
      split: if_splits sum.splits prod.splits)

lemma lastUpdate_step:
  assumes "0 \<le> I"
  shows "lastUpdateOf st n \<le> lastUpdateOf (snd (maybeUpdateCollection P st now name I)) n"
proof -
  obtain r st' where e: "maybeUpdateCollection P st now name I = (r, st')" by (cases "maybeUpdateCollection P st now name I")
  from maybeUpdate_cases[OF e] assms show ?thesis
    unfolding e by (auto simp: lastUpdateOf_def)
qed

lemma trace_after_last:
  assumes "0 \<le> I"
  shows "(t, n, Updated) \<in> set (updateTrace P st I calls)
         \<Longrightarrow> I * 1000 \<le> real_of_int (t - lastUpdateOf st n)"
proof (induction calls arbitrary: st)
  case Nil
  then show ?case by simp
next
  case (Cons c calls)
  obtain now name where c: "c = (now, name)" by (cases c)
  obtain r st' where e: "maybeUpdateCollection P st now name I = (r, st')"
    by (cases "maybeUpdateCollection P st now name I")
  from Cons.prems consider
    (head) "t = now" "n = name" "updateOutcomeOf P st now name I = Updated"
    | (tail) "(t, n, Updated) \<in> set (updateTrace P st' I calls)"
    by (auto simp: c e)
  then show ?case
  proof cases
    case head
    with maybeUpdate_cases[OF e] show ?thesis by auto
  next
    case tail
    from Cons.IH[OF tail] have "I * 1000 \<le> real_of_int (t - lastUpdateOf st' n)" .
    moreover have "lastUpdateOf st n \<le> lastUpdateOf st' n"
      using lastUpdate_step[OF assms, of st n P now name] by (simp add: e)
    ultimately show ?thesis by simp
  qed
qed

lemma trace_separated:
  assumes "0 \<le> I"
  shows "i < j \<Longrightarrow> j < length calls
    \<Longrightarrow> updateTrace P st I calls ! i = (t1, n, Updated)
    \<Longrightarrow> updateTrace P st I calls ! j = (t2, n, Updated)
    \<Longrightarrow> I * 1000 \<le> real_of_int (t2 - t1)"
proof (induction calls arbitrary: st i j)
  case Nil
  then show ?case by simp
next
  case (Cons c calls)
  obtain now name where c: "c = (now, name)" by (cases c)
  obtain r st' where e: "maybeUpdateCollection P st now name I = (r, st')"
    by (cases "maybeUpdateCollection P st now name I")
  have len: "length (updateTrace P s I cs) = length cs" for s cs
    by (induction cs arbitrary: s) auto
  from Cons.prems obtain j' where j: "j = Suc j'" by (cases j) auto
  with Cons.prems have j'len: "j' < length calls" by simp
  from Cons.prems have tj: "updateTrace P st' I calls ! j' = (t2, n, Updated)"
    by (simp add: c e j)
  show ?case
  proof (cases i)
    case 0
    with Cons.prems have h: "t1 = now" "n = name" "updateOutcomeOf P st now name I = Updated"
      by (auto simp: c)
    with maybeUpdate_cases[OF e] have "lastUpdateOf st' n = t1"
      by (auto simp: lastUpdateOf_def)
    moreover have "(t2, n, Updated) \<in> set (updateTrace P st' I calls)"
      using tj j'len by (metis len nth_mem)
    ultimately show ?thesis using trace_after_last[OF assms, of t2 n P st' calls] by simp
  next
    case (Suc i')
    with Cons.prems have "updateTrace P st' I calls ! i' = (t1, n, Updated)" "i' < j'"
      by (simp_all add: c e j)
    from Cons.IH[OF this(2) j'len this(1) tj] show ?thesis .
  qed
qed

text \<open>
  Claim C6, as the code has it, for calls made one after the other. The timestamp of a
  collection changes only in a call whose update command succeeded, and then it becomes
  that call's clock reading. Two calls for the same collection whose update commands
  both succeeded are at least the interval apart, so no window shorter than the interval
  holds two successful updates. A call whose command failed leaves the timestamp as it
  was, and the next call issues the command again.
\<close>

theorem maybeUpdateCollection_cooldown:
  assumes "0 \<le> I"
  shows "(\<forall>i j t1 t2 n. i < j \<and> j < length calls
            \<and> updateTrace P st I calls ! i = (t1, n, Updated)
            \<and> updateTrace P st I calls ! j = (t2, n, Updated)
            \<longrightarrow> I * 1000 \<le> real_of_int (t2 - t1))
     \<and> (updateOutcomeOf P st now name I \<noteq> Updated \<longrightarrow>
          lastCollectionUpdateMs (snd (maybeUpdateCollection P st now name I)) =
            lastCollectionUpdateMs st)
     \<and> (updateOutcomeOf P st now name I = Updated \<longrightarrow>
          lastUpdateOf (snd (maybeUpdateCollection P st now name I)) name = now)"
proof -
  obtain r st' where e: "maybeUpdateCollection P st now name I = (r, st')"
    by (cases "maybeUpdateCollection P st now name I")
  from maybeUpdate_cases[OF e]
  have b: "updateOutcomeOf P st now name I \<noteq> Updated \<longrightarrow>
          lastCollectionUpdateMs st' = lastCollectionUpdateMs st"
    and c: "updateOutcomeOf P st now name I = Updated \<longrightarrow> lastUpdateOf st' name = now"
    by (auto simp: lastUpdateOf_def)
  have a: "\<forall>i j t1 t2 n. i < j \<and> j < length calls
            \<and> updateTrace P st I calls ! i = (t1, n, Updated)
            \<and> updateTrace P st I calls ! j = (t2, n, Updated)
            \<longrightarrow> I * 1000 \<le> real_of_int (t2 - t1)"
  proof (intro allI impI, elim conjE)
    fix i j t1 t2 n
    assume "i < j" "j < length calls"
      "updateTrace P st I calls ! i = (t1, n, Updated)"
      "updateTrace P st I calls ! j = (t2, n, Updated)"
    then show "I * 1000 \<le> real_of_int (t2 - t1)"
      by (rule trace_separated[OF assms])
  qed
  from b c have "(updateOutcomeOf P st now name I \<noteq> Updated \<longrightarrow>
          lastCollectionUpdateMs (snd (maybeUpdateCollection P st now name I)) =
            lastCollectionUpdateMs st)
     \<and> (updateOutcomeOf P st now name I = Updated \<longrightarrow>
          lastUpdateOf (snd (maybeUpdateCollection P st now name I)) name = now)"
    by (simp add: e)
  with a show ?thesis by (rule conjI)
qed

lemma example_update_ok:
  "maybeUpdateCollection (examplePlatform\<lparr> spawnResult := \<lambda>n c. Inr [] \<rparr>) st now name I =
     (if real_of_int (now - lastUpdateOf st name) < I * 1000 then (Inr (), st)
      else (Inr (), st\<lparr> issued := issued st @
                [\<lparr> cmd = commandOr st (js ''qmd''), args = [js ''update'', js ''--collections'', name],
                   timeoutMs = 15000, extraEnv = [] \<rparr>],
              lastCollectionUpdateMs := (name, now) # lastCollectionUpdateMs st \<rparr>))"
  by (simp add: maybeUpdateCollection_def runCommand_def examplePlatform_def)

lemma example_update_fails:
  "maybeUpdateCollection examplePlatform st now name I =
     (if real_of_int (now - lastUpdateOf st name) < I * 1000 then (Inr (), st)
      else (Inl (CommandError (js ''Command exited with code 1'')),
            st\<lparr> issued := issued st @
                [\<lparr> cmd = commandOr st (js ''qmd''), args = [js ''update'', js ''--collections'', name],
                   timeoutMs = 15000, extraEnv = [] \<rparr>] \<rparr>))"
  by (simp add: maybeUpdateCollection_def runCommand_def examplePlatform_def)

theorem maybeUpdateCollection_cooldown_witness:
  "updateTrace (examplePlatform\<lparr> spawnResult := \<lambda>n c. Inr [] \<rparr>) initialState 10
      [(1000000, js ''tinyclaw-a''), (1000005, js ''tinyclaw-a''), (1010000, js ''tinyclaw-a'')] =
      [(1000000, js ''tinyclaw-a'', Updated), (1000005, js ''tinyclaw-a'', Skipped),
       (1010000, js ''tinyclaw-a'', Updated)]
   \<and> (10::real) * 1000 \<le> real_of_int (1010000 - 1000000)"
proof -
  let ?P = "examplePlatform\<lparr> spawnResult := \<lambda>n c. Inr [] \<rparr>"
  let ?calls = "[(1000000, js ''tinyclaw-a''), (1000005, js ''tinyclaw-a''), (1010000, js ''tinyclaw-a'')]"
  have tr: "updateTrace ?P initialState 10 ?calls =
      [(1000000, js ''tinyclaw-a'', Updated), (1000005, js ''tinyclaw-a'', Skipped),
       (1010000, js ''tinyclaw-a'', Updated)]"
    by (simp add: updateOutcomeOf_def example_update_ok lastUpdateOf_def initialState_def)
  have le: "(0::real) \<le> 10" by simp
  note sep = maybeUpdateCollection_cooldown[OF le, of ?calls ?P initialState 0 "[]",
      THEN conjunct1, rule_format, of 0 2 1000000 "js ''tinyclaw-a''" 1010000]
  have "(10::real) * 1000 \<le> real_of_int (1010000 - 1000000)"
    by (rule sep, unfold tr) simp
  with tr show ?thesis by (rule conjI)
qed

text \<open>
  Claim C6 as stated fails in its first part: when the update command fails, two calls
  one millisecond apart, with an interval of 10 seconds, each issue the update command.
\<close>

theorem maybeUpdateCollection_window_counterexample:
  "updateTrace examplePlatform initialState 10
      [(1000000, js ''tinyclaw-a''), (1000001, js ''tinyclaw-a'')] =
      [(1000000, js ''tinyclaw-a'', UpdateFailed), (1000001, js ''tinyclaw-a'', UpdateFailed)]
   \<and> map args (issued (snd (maybeUpdateCollection examplePlatform
        (snd (maybeUpdateCollection examplePlatform initialState 1000000 (js ''tinyclaw-a'') 10))
        1000001 (js ''tinyclaw-a'') 10))) =
      [[js ''update'', js ''--collections'', js ''tinyclaw-a''],
       [js ''update'', js ''--collections'', js ''tinyclaw-a'']]"
  by (simp add: updateOutcomeOf_def example_update_fails lastUpdateOf_def initialState_def)

subsection \<open>Parsing the backend's output\<close>

lemma parseQmdResults_blank: "trim raw = [] \<Longrightarrow> parseQmdResults jsonParse numStr objStr raw = Inr []"
  by (simp add: parseQmdResults_def)

lemma parseQmdResults_not_json:
  "jsonParse (trim raw) = None \<Longrightarrow> parseQmdResults jsonParse numStr objStr raw = Inr []"
  by (simp add: parseQmdResults_def Let_def)

lemma parseQmdResults_array:
  "trim raw \<noteq> [] \<Longrightarrow> jsonParse (trim raw) = Some (JArr rows)
   \<Longrightarrow> parseQmdResults jsonParse numStr objStr raw = parseRows numStr objStr rows"
  by (simp add: parseQmdResults_def Let_def)

lemma parseQmdResults_results_field:
  "trim raw \<noteq> [] \<Longrightarrow> jsonParse (trim raw) = Some (JObj ps)
   \<Longrightarrow> map_of ps (js ''results'') = Some (JArr rows)
   \<Longrightarrow> parseQmdResults jsonParse numStr objStr raw = parseRows numStr objStr rows"
  by (simp add: parseQmdResults_def Let_def)

lemma rowScore_default:
  "rowScore (JObj ps) = (case map_of ps (js ''score'') of Some (JNum n) \<Rightarrow> n | _ \<Rightarrow> Fin 0)"
  by (simp add: rowScore_def split: option.split jsval.split)

lemma parseRows_snippets_nonempty:
  "parseRows numStr objStr rows = Inr rs \<Longrightarrow> \<forall>r\<in>set rs. snippet r \<noteq> []"
  by (induction rows arbitrary: rs) (auto split: if_splits sum.splits)

text \<open>
  Claim C7. Output that is empty or not JSON parses to the empty list, an array and an
  object with an array under \<open>results\<close> are both accepted, a missing or non-numeric
  score is 0 and a row without snippet text is dropped (the lemmas above). But the
  function is not total: for the output \<open>null\<close>, which is valid JSON, \<open>JSON.parse\<close>
  returns \<open>null\<close>, and reading \<open>results\<close> off it throws a \<open>TypeError\<close>.
\<close>

theorem parseQmdResults_null_raises:
  "jsonParse (js ''null'') = Some JNull
   \<Longrightarrow> parseQmdResults jsonParse numStr objStr (js ''null'') = Inl TypeError"
  by (simp add: parseQmdResults_def trim_def isWhiteSpace_def js_def)

theorem parseQmdResults_null_raises_witness:
  "parseQmdResults (\<lambda>s. if s = js ''null'' then Some JNull else None)
     (\<lambda>n. js ''0'') (\<lambda>v. None) (js ''null'') = Inl TypeError"
  by (rule parseQmdResults_null_raises) simp

subsection \<open>Turn files\<close>

lemma indexOf_first:
  "m \<noteq> [] \<Longrightarrow> \<not> sublist m (A @ butlast m) \<Longrightarrow> indexOf (A @ m @ B) m = Some (length A)"
proof (induction A)
  case Nil
  then show ?case by (cases m) auto
next
  case (Cons a A)
  have np: "\<not> prefix m (a # A @ m @ B)"
  proof
    assume p: "prefix m (a # A @ m @ B)"
    have "length m \<le> length ((a # A) @ butlast m)" by simp
    moreover have "(a # A @ m @ B) = ((a # A) @ butlast m) @ (last m # B)"
      using Cons.prems(1) by simp
    ultimately have "prefix m ((a # A) @ butlast m)"
      using p by (metis prefix_length_prefix prefixI append.assoc prefix_order.order_refl prefix_append)
    then show False using Cons.prems(2) by auto
  qed
  from Cons.prems(2) have "\<not> sublist m (A @ butlast m)"
    by (auto simp: sublist_Cons_right)
  with Cons.IH Cons.prems(1) np show ?case by simp
qed

lemma sublist_skip_line:
  "10 \<notin> set l \<Longrightarrow> sublist (10 # w) (l @ 10 # r) \<longleftrightarrow> sublist (10 # w) (10 # r)"
  by (induction l) (auto simp: sublist_Cons_right)

lemma prefix_line_eq:
  "10 \<notin> set a \<Longrightarrow> 10 \<notin> set l \<Longrightarrow> prefix (a @ [10]) (l @ 10 # t) \<longleftrightarrow> a = l"
proof (induction a arbitrary: l)
  case Nil
  then show ?case by (cases l) auto
next
  case (Cons x a)
  then show ?case by (cases l) auto
qed

lemma sublist_lines:
  assumes "10 \<notin> set a"
  shows "(\<forall>l\<in>set ls. 10 \<notin> set l) \<Longrightarrow>
     sublist (10 # a @ [10]) (10 # unlinesThen ls t) \<longleftrightarrow>
       a \<in> set ls \<or> sublist (10 # a @ [10]) (10 # t)"
proof (induction ls)
  case Nil
  then show ?case by (simp add: unlinesThen_def)
next
  case (Cons l ls)
  have u: "unlinesThen (l # ls) t = l @ 10 # unlinesThen ls t" by (simp add: unlinesThen_def)
  have "sublist (10 # a @ [10]) (10 # l @ 10 # unlinesThen ls t) \<longleftrightarrow>
          prefix (a @ [10]) (l @ 10 # unlinesThen ls t)
          \<or> sublist (10 # a @ [10]) (l @ 10 # unlinesThen ls t)"
    by (simp add: sublist_Cons_right)
  also have "\<dots> \<longleftrightarrow> a = l \<or> sublist (10 # a @ [10]) (10 # unlinesThen ls t)"
    using Cons.prems assms by (simp add: prefix_line_eq sublist_skip_line)
  finally show ?case using Cons by (auto simp: u)
qed

lemma splitNl_nonempty: "splitNl s \<noteq> []"
  by (induction s) (auto split: list.splits)

lemma splitNl_lines: "\<forall>l\<in>set (splitNl s). 10 \<notin> set l"
  by (induction s) (auto split: list.splits)

lemma unlinesThen_splitNl: "unlinesThen (splitNl s) t = s @ 10 # t"
  by (induction s) (auto simp: unlinesThen_def split: list.splits)

lemma unlinesThen_Nil: "unlinesThen [] t = t"
  by (simp add: unlinesThen_def)

lemma unlinesThen_Cons: "unlinesThen (l # ls) t = l @ 10 # unlinesThen ls t"
  by (simp add: unlinesThen_def)

lemma unlinesThen_app_right: "unlinesThen ls t @ s = unlinesThen ls (t @ s)"
  by (induction ls) (simp_all add: unlinesThen_def)

lemma unlinesThen_append: "unlinesThen (xs @ ys) t = unlinesThen xs (unlinesThen ys t)"
  by (simp add: unlinesThen_def)

lemma trim_nl_wrap: "trim (10 # x @ [10]) = trim x"
proof -
  have w: "isWhiteSpace 10" by (simp add: isWhiteSpace_def)
  show ?thesis
  proof (cases "dropWhile isWhiteSpace x = []")
    case True
    then have "\<forall>c\<in>set x. isWhiteSpace c" by (simp add: dropWhile_eq_Nil_conv)
    then have "\<forall>c\<in>set (10 # x @ [10]). isWhiteSpace c" using w by simp
    then have "dropWhile isWhiteSpace (10 # x @ [10]) = []"
      by (simp only: dropWhile_eq_Nil_conv)
    then have "trim (10 # x @ [10]) = []" by (simp only: trim_def) simp
    moreover have "trim x = []" using True by (simp only: trim_def) simp
    ultimately show ?thesis by simp
  next
    case False
    then obtain c where "c \<in> set x" "\<not> isWhiteSpace c" by (auto simp: dropWhile_eq_Nil_conv)
    then have "dropWhile isWhiteSpace (x @ [10]) = dropWhile isWhiteSpace x @ [10]"
      by (simp add: dropWhile_append1)
    then have "dropWhile isWhiteSpace (10 # x @ [10]) = dropWhile isWhiteSpace x @ [10]"
      using w by simp
    then have "trim (10 # x @ [10]) =
        rev (dropWhile isWhiteSpace (10 # rev (dropWhile isWhiteSpace x)))"
      by (simp only: trim_def) simp
    then show ?thesis using w by (simp add: trim_def)
  qed
qed


lemma js_no_nl [simp]:
  "10 \<notin> set (js ''# Turn for @'')" "10 \<notin> set (js '' ('')" "10 \<notin> set (js '')'')"
  "10 \<notin> set (js ''- Timestamp: '')" "10 \<notin> set (js ''- Channel: '')"
  "10 \<notin> set (js ''- Sender: '')" "10 \<notin> set (js ''- Message ID: '')"
  "10 \<notin> set (js ''## User'')" "10 \<notin> set (js ''## Assistant'')"
  by (simp_all add: js_def)

lemma parse_turnFileContent:
  assumes nl: "10 \<notin> set (turnAgentId p)" "10 \<notin> set (turnAgentName p)" "10 \<notin> set isoTime"
      "10 \<notin> set (turnChannel p)" "10 \<notin> set (turnSender p)" "10 \<notin> set (turnMessageId p)"
    and nm: "js ''## Assistant'' \<notin> set (splitNl (truncateText (userMessage p) 16000))"
  shows "parseTurnSections (turnFileContent p isoTime) =
           \<lparr> user = trim (truncateText (userMessage p) 16000),
             assistant = trim (truncateText (agentResponse p) 16000) \<rparr>"
proof -
  define L0 where "L0 = js ''# Turn for @'' @ turnAgentId p @ js '' ('' @ turnAgentName p @ js '')''"
  define HD where "HD = [[], js ''- Timestamp: '' @ isoTime, js ''- Channel: '' @ turnChannel p,
      js ''- Sender: '' @ turnSender p, js ''- Message ID: '' @ turnMessageId p]"
  define U where "U = truncateText (userMessage p) 16000"
  define A where "A = truncateText (agentResponse p) 16000"
  define A1 where "A1 = L0 @ 10 # unlinesThen HD []"
  define A2 where "A2 = A1 @ userMarker @ (10 # U @ [10])"
  define content where "content = turnFileContent p isoTime"
  have L0nl: "10 \<notin> set L0" using nl by (simp add: L0_def)
  have HDnl: "\<forall>l\<in>set HD. 10 \<notin> set l" using nl by (simp add: HD_def)
  have c1: "content = A1 @ userMarker @ ((10 # U @ [10]) @ assistantMarker @ (10 # A @ [10]))"
    by (simp add: content_def turnFileContent_def turnLines_def A1_def L0_def HD_def U_def A_def
        unlinesThen_def userMarker_def assistantMarker_def)
  have c2: "content = A2 @ assistantMarker @ (10 # A @ [10])"
    by (simp add: c1 A2_def)
  have um: "userMarker = 10 # js ''## User'' @ [10]" by (simp add: userMarker_def)
  have am: "assistantMarker = 10 # js ''## Assistant'' @ [10]" by (simp add: assistantMarker_def)
  have u1: "A1 @ butlast userMarker = L0 @ 10 # unlinesThen HD (10 # js ''## User'')"
    by (simp add: A1_def um unlinesThen_app_right butlast_append)
  have "\<not> sublist userMarker (A1 @ butlast userMarker)"
  proof -
    have "sublist userMarker (A1 @ butlast userMarker) \<longleftrightarrow>
            sublist (10 # js ''## User'' @ [10]) (10 # unlinesThen HD (10 # js ''## User''))"
      unfolding u1 unfolding um using L0nl by (rule sublist_skip_line)
    also have "\<dots> \<longleftrightarrow> js ''## User'' \<in> set HD
                 \<or> sublist (10 # js ''## User'' @ [10]) (10 # 10 # js ''## User'')"
      using HDnl by (intro sublist_lines) simp_all
    also have "\<dots> \<longleftrightarrow> False"
      by (simp add: HD_def js_def sublist_Cons_right)
    finally show ?thesis by simp
  qed
  then have iu: "indexOf content userMarker = Some (length A1)"
    unfolding c1 by (intro indexOf_first) (simp_all add: um)
  define LS where "LS = HD @ [[], js ''## User'', []] @ splitNl U @ [[]]"
  have LSnl: "\<forall>l\<in>set LS. 10 \<notin> set l"
    using HDnl splitNl_lines[of U] by (auto simp: LS_def)
  have u2: "A2 @ butlast assistantMarker = L0 @ 10 # unlinesThen LS (js ''## Assistant'')"
    by (simp add: A2_def A1_def um am LS_def unlinesThen_append unlinesThen_splitNl
        unlinesThen_app_right unlinesThen_Cons unlinesThen_Nil butlast_append)
  have "\<not> sublist assistantMarker (A2 @ butlast assistantMarker)"
  proof -
    have "sublist assistantMarker (A2 @ butlast assistantMarker) \<longleftrightarrow>
            sublist (10 # js ''## Assistant'' @ [10]) (10 # unlinesThen LS (js ''## Assistant''))"
      unfolding u2 unfolding am using L0nl by (rule sublist_skip_line)
    also have "\<dots> \<longleftrightarrow> js ''## Assistant'' \<in> set LS
                 \<or> sublist (10 # js ''## Assistant'' @ [10]) (10 # js ''## Assistant'')"
      using LSnl by (intro sublist_lines) simp_all
    also have "\<dots> \<longleftrightarrow> False"
      using nm by (simp add: LS_def HD_def U_def js_def sublist_Cons_right)
    finally show ?thesis by simp
  qed
  then have ia: "indexOf content assistantMarker = Some (length A2)"
    unfolding c2 by (intro indexOf_first) (simp_all add: am)
  have lt: "\<not> length A2 \<le> length A1" by (simp add: A2_def)
  have d1: "take (length A2 - (length A1 + length userMarker)) (drop (length A1 + length userMarker) content)
              = 10 # U @ [10]"
    by (simp add: c1 A2_def)
  have d2: "drop (length A2 + length assistantMarker) content = 10 # A @ [10]"
    by (simp add: c2)
  show ?thesis
    unfolding content_def[symmetric] U_def[symmetric] A_def[symmetric]
    by (simp add: parseTurnSections_def iu ia lt Let_def d1 d2 trim_nl_wrap)
qed


text \<open>
  Claim C8, as the code has it. When the header fields (agent id, agent name, channel,
  sender, message id, and the printed timestamp) have no line feed and no line of the
  capped user text is exactly \<open>## Assistant\<close>, parsing the content written by
  \<open>saveTurnToMemory\<close> gives back the capped user text and the capped assistant text,
  each with the white space at its two ends trimmed off.
\<close>

theorem saveTurnToMemory_roundtrip:
  assumes "saveTurnToMemory P nowMs p = Some (path, content)"
    and "\<forall>t s. toISOString P t = Some s \<longrightarrow> 10 \<notin> set s"
    and "10 \<notin> set (turnAgentId p)" "10 \<notin> set (turnAgentName p)"
      "10 \<notin> set (turnChannel p)" "10 \<notin> set (turnSender p)" "10 \<notin> set (turnMessageId p)"
    and "js ''## Assistant'' \<notin> set (splitNl (truncateText (userMessage p) 16000))"
  shows "parseTurnSections content =
           \<lparr> user = trim (truncateText (userMessage p) 16000),
             assistant = trim (truncateText (agentResponse p) 16000) \<rparr>"
proof -
  from assms(1) obtain t isoTime where i: "toISOString P t = Some isoTime"
    and c: "content = turnFileContent p isoTime"
    by (auto simp: saveTurnToMemory_def Let_def split: if_splits option.splits)
  from i assms(2) have "10 \<notin> set isoTime" by blast
  with assms show ?thesis unfolding c by (intro parse_turnFileContent)
qed

lemma example_save:
  "saveTurnToMemory examplePlatform 0 (exampleTurn\<lparr> userMessage := u \<rparr>) =
     Some (js ''/home/u/.tinyclaw/memory/turns/a/2026-01-02T03-04-05-678Z-42.md'',
           turnFileContent (exampleTurn\<lparr> userMessage := u \<rparr>) (js ''2026-01-02T03:04:05.678Z''))"
  by (simp add: saveTurnToMemory_def examplePlatform_def exampleTurn_def Let_def ensureDir_def
      getAgentTurnsDir_def MEMORY_TURNS_DIR_def MEMORY_ROOT_def sanitizeId_def isIdChar_def
      asciiLower_def js_def)

theorem saveTurnToMemory_roundtrip_witness:
  "map_option (\<lambda>(path, content). parseTurnSections content)
     (saveTurnToMemory examplePlatform 0 (exampleTurn\<lparr> userMessage := js ''hi'' \<rparr>)) =
     Some \<lparr> user = js ''hi'', assistant = js ''hello'' \<rparr>"
proof -
  let ?p = "exampleTurn\<lparr> userMessage := js ''hi'' \<rparr>"
  let ?c = "turnFileContent ?p (js ''2026-01-02T03:04:05.678Z'')"
  have "parseTurnSections ?c =
           \<lparr> user = trim (truncateText (userMessage ?p) 16000),
             assistant = trim (truncateText (agentResponse ?p) 16000) \<rparr>"
    by (rule saveTurnToMemory_roundtrip[OF example_save])
       (simp_all add: examplePlatform_def exampleTurn_def js_def truncateText_def)
  then show ?thesis
    unfolding example_save
    by (simp add: exampleTurn_def truncateText_def trim_def isWhiteSpace_def js_def)
qed

text \<open>
  Claim C8 as stated fails: a user text with a leading space comes back without it, and
  a user text with the line \<open>## Assistant\<close> ends the user section at that line, so
  that the assistant section read back is not the response that was written.
\<close>

theorem saveTurnToMemory_roundtrip_counterexample:
  "map_option (\<lambda>(path, content). user (parseTurnSections content))
     (saveTurnToMemory examplePlatform 0 (exampleTurn\<lparr> userMessage := js '' hi'' \<rparr>)) = Some (js ''hi'')
   \<and> js ''hi'' \<noteq> truncateText (js '' hi'') 16000
   \<and> map_option (\<lambda>(path, content). parseTurnSections content)
     (saveTurnToMemory examplePlatform 0
        (exampleTurn\<lparr> userMessage := js ''a'' @ [10] @ js ''## Assistant'' @ [10] @ js ''b'' \<rparr>)) =
     Some \<lparr> user = js ''a'',
            assistant = js ''b'' @ [10, 10] @ js ''## Assistant'' @ [10, 10] @ js ''hello'' \<rparr>
   \<and> js ''b'' @ [10, 10] @ js ''## Assistant'' @ [10, 10] @ js ''hello'' \<noteq> truncateText (js ''hello'') 16000"
proof -
  let ?p = "exampleTurn\<lparr> userMessage := js '' hi'' \<rparr>"
  let ?c = "turnFileContent ?p (js ''2026-01-02T03:04:05.678Z'')"
  have "parseTurnSections ?c =
           \<lparr> user = trim (truncateText (userMessage ?p) 16000),
             assistant = trim (truncateText (agentResponse ?p) 16000) \<rparr>"
    by (rule parse_turnFileContent)
       (simp_all add: exampleTurn_def js_def truncateText_def)
  then have a: "map_option (\<lambda>(path, content). user (parseTurnSections content))
     (saveTurnToMemory examplePlatform 0 ?p) = Some (js ''hi'')"
    unfolding example_save
    by (simp add: exampleTurn_def truncateText_def trim_def isWhiteSpace_def js_def)
  have b: "map_option (\<lambda>(path, content). parseTurnSections content)
     (saveTurnToMemory examplePlatform 0
        (exampleTurn\<lparr> userMessage := js ''a'' @ [10] @ js ''## Assistant'' @ [10] @ js ''b'' \<rparr>)) =
     Some \<lparr> user = js ''a'',
            assistant = js ''b'' @ [10, 10] @ js ''## Assistant'' @ [10, 10] @ js ''hello'' \<rparr>"
    unfolding example_save
    by (simp add: exampleTurn_def turnFileContent_def turnLines_def truncateText_def
        parseTurnSections_def userMarker_def assistantMarker_def trim_def isWhiteSpace_def js_def
        Let_def)
  have c: "js ''hi'' \<noteq> truncateText (js '' hi'') 16000"
    "js ''b'' @ [10, 10] @ js ''## Assistant'' @ [10, 10] @ js ''hello'' \<noteq> truncateText (js ''hello'') 16000"
    by (simp_all add: truncateText_def js_def)
  from a b c show ?thesis by blast
qed

subsection \<open>Hydration and ranking\<close>

lemma mapResults_Inr:
  "mapResults f xs = Inr ys \<Longrightarrow> length ys = length xs \<and> (\<forall>i<length xs. f (xs ! i) = Inr (ys ! i))"
proof (induction xs arbitrary: ys)
  case Nil
  then show ?case by simp
next
  case (Cons x xs)
  from Cons.prems obtain y ys' where y: "f x = Inr y" and m: "mapResults f xs = Inr ys'"
    and ys: "ys = y # ys'"
    by (auto split: sum.splits)
  from Cons.IH[OF m] show ?case
    by (auto simp: ys y nth_Cons split: nat.splits)
qed

lemma mapResults_total:
  "(\<forall>x\<in>set xs. \<exists>y. f x = Inr y) \<Longrightarrow> \<exists>ys. mapResults f xs = Inr ys"
  by (induction xs) auto

lemma hydrateResult_source: "hydrateResult P terms agentId r = Inr r' \<Longrightarrow> source r' = source r"
  by (auto simp: hydrateResult_def Let_def split: sum.splits option.splits if_splits)

lemma hydrateResult_passes:
  "loadTurnSectionsFromSource P (source r) agentId = Inr None \<Longrightarrow> hydrateResult P terms agentId r = Inr r"
  by (simp add: hydrateResult_def)

lemma hydrateResult_raises_iff:
  "(\<exists>e. hydrateResult P terms agentId r = Inl e) \<longleftrightarrow>
     (\<exists>e. loadTurnSectionsFromSource P (source r) agentId = Inl e)"
  by (auto simp: hydrateResult_def Let_def split: sum.splits option.splits if_splits)

lemma mset_insertByScore: "mset (insertByScore x ys) = add_mset x (mset ys)"
  by (induction ys) auto

lemma mset_sortByScore: "mset (sortByScore xs) = mset xs"
  by (induction xs) (simp_all add: sortByScore_def mset_insertByScore)

lemma rerank_shape:
  assumes "rerankAndHydrateResults P hits message agentId = Inr rs"
  shows "length rs = length hits
     \<and> mset (map source rs) = mset (map source hits)
     \<and> (\<forall>r\<in>set hits. loadTurnSectionsFromSource P (source r) agentId = Inr None \<longrightarrow> r \<in> set rs)"
proof (cases "hits = []")
  case True
  with assms show ?thesis by (simp add: rerankAndHydrateResults_def)
next
  case False
  let ?f = "hydrateResult P (uniqueInOrder (matchTerms (toLowerCase P message))) agentId"
  from assms False obtain ys where m: "mapResults ?f hits = Inr ys" and rs: "rs = sortByScore ys"
    by (auto simp: rerankAndHydrateResults_def Let_def split: sum.splits)
  from mapResults_Inr[OF m] have len: "length ys = length hits"
    and each: "\<And>i. i < length hits \<Longrightarrow> ?f (hits ! i) = Inr (ys ! i)" by auto
  have src: "map source ys = map source hits"
  proof (rule nth_equalityI)
    show "length (map source ys) = length (map source hits)" by (simp add: len)
  next
    fix i assume "i < length (map source ys)"
    then have i: "i < length hits" by (simp add: len)
    from hydrateResult_source[OF each[OF i]] i len
    show "map source ys ! i = map source hits ! i" by simp
  qed
  have ms: "mset rs = mset ys" by (simp add: rs mset_sortByScore)
  have l: "length rs = length hits" using ms len by (metis size_mset)
  have s: "mset (map source rs) = mset (map source hits)"
    using ms src by (metis mset_map)
  have u: "r \<in> set rs" if "r \<in> set hits" "loadTurnSectionsFromSource P (source r) agentId = Inr None" for r
  proof -
    from that(1) obtain i where i: "i < length hits" "hits ! i = r" by (auto simp: in_set_conv_nth)
    with each[of i] hydrateResult_passes[OF that(2)] have "ys ! i = r" by simp
    with i len have "r \<in> set ys" by (metis nth_mem)
    then show ?thesis using ms by (metis set_mset_mset)
  qed
  from l s u show ?thesis by blast
qed

lemma rerank_returns:
  assumes "\<forall>r\<in>set hits. \<forall>e. loadTurnSectionsFromSource P (source r) agentId \<noteq> Inl e"
  shows "\<exists>rs. rerankAndHydrateResults P hits message agentId = Inr rs"
proof -
  let ?f = "hydrateResult P (uniqueInOrder (matchTerms (toLowerCase P message))) agentId"
  have "\<forall>r\<in>set hits. \<exists>y. ?f r = Inr y"
  proof
    fix r assume "r \<in> set hits"
    with assms have "\<not> (\<exists>e. loadTurnSectionsFromSource P (source r) agentId = Inl e)" by blast
    then have "\<not> (\<exists>e. ?f r = Inl e)" by (simp add: hydrateResult_raises_iff)
    then show "\<exists>y. ?f r = Inr y" by (cases "?f r") auto
  qed
  then obtain ys where "mapResults ?f hits = Inr ys" using mapResults_total by blast
  then show ?thesis by (simp add: rerankAndHydrateResults_def Let_def)
qed

text \<open>
  Claim C9. Where \<open>rerankAndHydrateResults\<close> returns, and it does when no source
  makes \<open>decodeURIComponent\<close> throw (lemma \<open>rerank_returns\<close>), the claim holds
  (lemma \<open>rerank_shape\<close>): the list has the length of the input, its sources are those of the
  input, and a hit whose source names no readable turn file is in it unchanged. But it
  does not return for every input: \<open>decodeURIComponent\<close> is called outside the
  \<open>try\<close>, so a hit whose source has a malformed percent escape, which cannot be
  hydrated, makes the whole call throw a \<open>URIError\<close>.
\<close>

theorem rerankAndHydrateResults_uri_raises:
  "rerankAndHydrateResults P
     [\<lparr> score = sc, snippet = sn, source = js ''qmd://c/%'' \<rparr>] message agentId
   = Inl URIError"
proof -
  have m: "matchQmdSource (js ''qmd://c/%'') = Some [37]"
    by (simp add: matchQmdSource_def js_def isLineTerminator_def Let_def)
  have d: "decodeURIComponent [37] = None"
    by (simp add: decodeURIComponent_def)
  have l: "loadTurnSectionsFromSource P (js ''qmd://c/%'') agentId = Inl URIError"
    unfolding loadTurnSectionsFromSource_def m by (simp add: d)
  show ?thesis
    by (simp add: rerankAndHydrateResults_def hydrateResult_def l Let_def)
qed

subsection \<open>Enrichment\<close>

lemma composeEnriched_cases:
  assumes "composeEnriched P qmdCfg agentId message found = Inr s"
  shows "s = message
     \<or> (\<exists>ranked. found \<noteq> []
          \<and> rerankAndHydrateResults P found message agentId = Inr ranked
          \<and> formatMemoryPrompt (toFixed3 P) ranked (maxChars qmdCfg) \<noteq> []
          \<and> s = message @ formatMemoryPrompt (toFixed3 P) ranked (maxChars qmdCfg))"
  using assms
  by (auto simp: composeEnriched_def Let_def split: if_splits sum.splits)

lemma enrichBody_cases:
  assumes "enrichBody P st now agentId message qmdCfg = (Inr s, st')"
  shows "s = message
     \<or> (\<exists>coll st2 st3 st4 mode st5 qr ranked.
           ensureCollection P st agentId = (Inr coll, st2)
         \<and> maybeUpdateCollection P st2 now coll (updateIntervalSeconds qmdCfg) = (Inr (), st3)
         \<and> precheckGate P st3 message coll qmdCfg = (True, st4)
         \<and> resolveRetrievalMode P st4 qmdCfg = (mode, st5)
         \<and> runQuery P st5 mode message coll qmdCfg = (Inr qr, st')
         \<and> results qr \<noteq> []
         \<and> rerankAndHydrateResults P (results qr) message agentId = Inr ranked
         \<and> formatMemoryPrompt (toFixed3 P) ranked (maxChars qmdCfg) \<noteq> []
         \<and> s = message @ formatMemoryPrompt (toFixed3 P) ranked (maxChars qmdCfg))"
proof -
  from assms obtain coll st2 where 1: "ensureCollection P st agentId = (Inr coll, st2)"
    by (auto simp: enrichBody_def split: prod.splits sum.splits)
  from assms 1 obtain st3 where
    2: "maybeUpdateCollection P st2 now coll (updateIntervalSeconds qmdCfg) = (Inr (), st3)"
    by (auto simp: enrichBody_def split: prod.splits sum.splits)
  obtain go st4 where 3: "precheckGate P st3 message coll qmdCfg = (go, st4)"
    by (cases "precheckGate P st3 message coll qmdCfg")
  show ?thesis
  proof (cases go)
    case False
    with assms 1 2 3 show ?thesis by (simp add: enrichBody_def)
  next
    case True
    obtain mode st5 where 4: "resolveRetrievalMode P st4 qmdCfg = (mode, st5)"
      by (cases "resolveRetrievalMode P st4 qmdCfg")
    from assms 1 2 3 4 True obtain qr where
      5: "runQuery P st5 mode message coll qmdCfg = (Inr qr, st')"
      and 6: "composeEnriched P qmdCfg agentId message (results qr) = Inr s"
      by (auto simp: enrichBody_def split: prod.splits sum.splits)
    from True 3 have g: "precheckGate P st3 message coll qmdCfg = (True, st4)" by simp
    from composeEnriched_cases[OF 6] 1 2 g 4 5 show ?thesis by blast
  qed
qed

lemma enrich_cases:
  "fst (enrichMessageWithMemory P st now agentId message settings ch) = message
   \<or> (\<exists>st1 s st'. enabled (getQmdConfig settings) \<and> shouldUseMemoryForChannel ch
         \<and> isQmdAvailable P st (command (getQmdConfig settings)) = (True, st1)
         \<and> enrichBody P st1 now agentId message (getQmdConfig settings) = (Inr s, st')
         \<and> fst (enrichMessageWithMemory P st now agentId message settings ch) = s)"
  by (auto simp: enrichMessageWithMemory_def Let_def split: prod.splits sum.splits)

text \<open>
  Claim C1. \<open>enrichMessageWithMemory\<close> always returns a string: every error of the
  \<open>try\<close> block ends in the \<open>catch\<close>, which returns the message. And the string is the
  original message unless every stage succeeded: memory is enabled, the channel is one
  of the memory channels, the backend was found, the collection was registered (or was
  there already), the refresh did not fail, the precheck is off or found a hit without
  an error, the query command succeeded and its output parsed to at least one hit,
  ranking did not throw and the prompt is not empty. So when memory is disabled, the
  channel is not eligible, the backend is unavailable, or any stage fails, the result is
  exactly the original message.
\<close>

theorem enrichMessageWithMemory_fail_open:
  "fst (enrichMessageWithMemory P st now agentId message settings ch) = message
   \<or> (\<exists>st1 coll st2 st3 st4 mode st5 qr st6 ranked.
         enabled (getQmdConfig settings) \<and> shouldUseMemoryForChannel ch
       \<and> isQmdAvailable P st (command (getQmdConfig settings)) = (True, st1)
       \<and> ensureCollection P st1 agentId = (Inr coll, st2)
       \<and> maybeUpdateCollection P st2 now coll (updateIntervalSeconds (getQmdConfig settings))
            = (Inr (), st3)
       \<and> precheckGate P st3 message coll (getQmdConfig settings) = (True, st4)
       \<and> resolveRetrievalMode P st4 (getQmdConfig settings) = (mode, st5)
       \<and> runQuery P st5 mode message coll (getQmdConfig settings) = (Inr qr, st6)
       \<and> results qr \<noteq> []
       \<and> rerankAndHydrateResults P (results qr) message agentId = Inr ranked
       \<and> formatMemoryPrompt (toFixed3 P) ranked (maxChars (getQmdConfig settings)) \<noteq> []
       \<and> fst (enrichMessageWithMemory P st now agentId message settings ch) =
           message @ formatMemoryPrompt (toFixed3 P) ranked (maxChars (getQmdConfig settings)))"
proof -
  from enrich_cases[of P st now agentId message settings ch]
  show ?thesis
  proof
    assume "fst (enrichMessageWithMemory P st now agentId message settings ch) = message"
    then show ?thesis ..
  next
    assume "\<exists>st1 s st'. enabled (getQmdConfig settings) \<and> shouldUseMemoryForChannel ch
         \<and> isQmdAvailable P st (command (getQmdConfig settings)) = (True, st1)
         \<and> enrichBody P st1 now agentId message (getQmdConfig settings) = (Inr s, st')
         \<and> fst (enrichMessageWithMemory P st now agentId message settings ch) = s"
    then obtain st1 s st' where a: "enabled (getQmdConfig settings)" "shouldUseMemoryForChannel ch"
      "isQmdAvailable P st (command (getQmdConfig settings)) = (True, st1)"
      and b: "enrichBody P st1 now agentId message (getQmdConfig settings) = (Inr s, st')"
      and c: "fst (enrichMessageWithMemory P st now agentId message settings ch) = s"
      by blast
    from enrichBody_cases[OF b] a c show ?thesis by (elim disjE exE conjE) (simp, blast)
  qed
qed

text \<open>
  Claim C10. The string returned has the original message as a prefix: it is the
  message, or the message followed by a non-empty block that begins with the fixed
  separator and preamble.
\<close>

theorem enrichMessageWithMemory_prefix:
  "prefix message (fst (enrichMessageWithMemory P st now agentId message settings ch))
   \<and> (fst (enrichMessageWithMemory P st now agentId message settings ch) = message
      \<or> (\<exists>block. block \<noteq> [] \<and> prefix memoryPreamble block
            \<and> fst (enrichMessageWithMemory P st now agentId message settings ch) = message @ block))"
proof -
  have pre: "prefix memoryPreamble (formatMemoryPrompt fmt hits maxCh)"
    if "formatMemoryPrompt fmt hits maxCh \<noteq> []" for fmt hits maxCh
    using that by (simp add: formatMemoryPrompt_eq split: if_splits)
  from enrich_cases[of P st now agentId message settings ch]
  have "fst (enrichMessageWithMemory P st now agentId message settings ch) = message
      \<or> (\<exists>block. block \<noteq> [] \<and> prefix memoryPreamble block
            \<and> fst (enrichMessageWithMemory P st now agentId message settings ch) = message @ block)"
  proof
    assume "fst (enrichMessageWithMemory P st now agentId message settings ch) = message"
    then show ?thesis ..
  next
    assume "\<exists>st1 s st'. enabled (getQmdConfig settings) \<and> shouldUseMemoryForChannel ch
         \<and> isQmdAvailable P st (command (getQmdConfig settings)) = (True, st1)
         \<and> enrichBody P st1 now agentId message (getQmdConfig settings) = (Inr s, st')
         \<and> fst (enrichMessageWithMemory P st now agentId message settings ch) = s"
    then obtain st1 s st' where
      b: "enrichBody P st1 now agentId message (getQmdConfig settings) = (Inr s, st')"
      and c: "fst (enrichMessageWithMemory P st now agentId message settings ch) = s"
      by blast
    from enrichBody_cases[OF b] c pre show ?thesis by blast
  qed
  then show ?thesis by auto
qed

subsection \<open>Two runs of the enrichment\<close>

text \<open>On the backend with one hit, with the default configuration: the probe, the
  registration, the refresh, the precheck and the lexical query succeed, the hit's source
  names a file that cannot be read, so the hit passes through, and the message comes back
  with the memory block appended.\<close>

lemma exampleOutput_nonempty: "exampleOutput \<noteq> []" by (simp add: exampleOutput_def js_def)

lemma trim_exampleOutput: "trim exampleOutput = exampleOutput"
    by (simp add: exampleOutput_def quoted_def trim_def isWhiteSpace_def js_def)

lemma parse_exampleOutput: "JSON_parse hitPlatform exampleOutput = Some exampleParsed"
  by (simp add: hitPlatform_def)

lemma parseRows_example: "parseRows (numToString hitPlatform) (objToString hitPlatform)
    [JObj [(js ''score'', JNum (Fin 1)),
                 (js ''snippet'', JStr (js ''The key is ABC-123-XYZ'')),
                 (js ''path'', JStr (js ''qmd://tinyclaw-a/t.md''))]] =
   Inr [\<lparr> score = Fin 1, snippet = js ''The key is ABC-123-XYZ'', source = js ''qmd://tinyclaw-a/t.md'' \<rparr>]"
  by (simp add: rowScore_def rowSnippetValue_def rowSourceValue_def js_def trim_def isWhiteSpace_def)

lemma parse_example:
  "parseQmdResults (JSON_parse hitPlatform) (numToString hitPlatform) (objToString hitPlatform)
     exampleOutput =
   Inr [\<lparr> score = Fin 1, snippet = js ''The key is ABC-123-XYZ'', source = js ''qmd://tinyclaw-a/t.md'' \<rparr>]"
proof -
  have "parseQmdResults (JSON_parse hitPlatform) (numToString hitPlatform) (objToString hitPlatform)
     exampleOutput =
     parseRows (numToString hitPlatform) (objToString hitPlatform)
       [JObj [(js ''score'', JNum (Fin 1)),
                 (js ''snippet'', JStr (js ''The key is ABC-123-XYZ'')),
                 (js ''path'', JStr (js ''qmd://tinyclaw-a/t.md''))]]"
    by (simp add: parseQmdResults_def trim_exampleOutput exampleOutput_nonempty parse_exampleOutput exampleParsed_def del: parseRows.simps)
  then show ?thesis by (simp only: parseRows_example)
qed

lemma config_exampleSettings: "getQmdConfig exampleSettings =
   \<lparr> enabled = True, command = None, topK = 4, minScore = 0, maxChars = 2500,
     updateIntervalSeconds = 120, useSemanticSearch = False, disableQueryExpansion = True,
     allowUnsafeVsearch = False, quickPrecheckEnabled = True, precheckTimeoutMs = 800,
     searchTimeoutMs = 3000, vectorSearchTimeoutMs = 10000, debugLogging = False \<rparr>"
  by (simp add: getQmdConfig_def exampleSettings_def clampedOr_def js_def Let_def
      DEFAULT_TOP_K_def DEFAULT_MIN_SCORE_def DEFAULT_MAX_CHARS_def
      DEFAULT_UPDATE_INTERVAL_SECONDS_def DEFAULT_PRECHECK_TIMEOUT_MS_def
      DEFAULT_TEXT_SEARCH_TIMEOUT_MS_def DEFAULT_VECTOR_SEARCH_TIMEOUT_MS_def)

lemma run_hit: "runCommand hitPlatform st c = (Inr exampleOutput, st\<lparr> issued := issued st @ [c] \<rparr>)"
  by (simp add: runCommand_def hitPlatform_def)

lemma probe_hit: "fst (isQmdAvailable hitPlatform initialState None) = True"
  by (simp add: isQmdAvailable_def initialState_def run_hit Let_def)

lemma quick_hit: "fst (quickHasLexicalHit hitPlatform st (js ''what is the api key?'') coll qmdCfg) = Inr True"
  by (simp add: quickHasLexicalHit_def variants_api_key run_hit parse_example)

lemma bm25_hit: "fst (runBm25WithVariants hitPlatform st (js ''what is the api key?'') coll qmdCfg) =
   Inr \<lparr> results = [\<lparr> score = Fin 1, snippet = js ''The key is ABC-123-XYZ'', source = js ''qmd://tinyclaw-a/t.md'' \<rparr>],
         query = js ''what is the api key?'' \<rparr>"
  by (simp add: runBm25WithVariants_def variants_api_key run_hit parse_example)



lemma ensure_hit: "fst (ensureCollection hitPlatform st (js ''a'')) = Inr (js ''tinyclaw-a'')"
proof -
  have n: "getCollectionName hitPlatform (js ''a'') = js ''tinyclaw-a''"
    by (simp add: getCollectionName_def sanitizeId_def hitPlatform_def examplePlatform_def
        isIdChar_def asciiLower_def js_def)
  have d: "ensureDir hitPlatform x" for x
    by (simp add: ensureDir_def hitPlatform_def examplePlatform_def)
  show ?thesis
    by (simp add: ensureCollection_def d n run_hit Let_def)
qed

lemma update_hit: "fst (maybeUpdateCollection hitPlatform st now coll I) = Inr ()"
  by (simp add: maybeUpdateCollection_def run_hit)

lemma rerank_hit:
  "rerankAndHydrateResults hitPlatform
     [\<lparr> score = Fin 1, snippet = js ''The key is ABC-123-XYZ'', source = js ''qmd://tinyclaw-a/t.md'' \<rparr>]
     message (js ''a'') =
   Inr [\<lparr> score = Fin 1, snippet = js ''The key is ABC-123-XYZ'', source = js ''qmd://tinyclaw-a/t.md'' \<rparr>]"
proof -
  have m: "matchQmdSource (js ''qmd://tinyclaw-a/t.md'') = Some (js ''t.md'')"
    by (simp add: matchQmdSource_def js_def isLineTerminator_def Let_def)
  have d: "decodeURIComponent (js ''t.md'') = Some (js ''t.md'')"
    by (simp add: decodeURIComponent_def js_def)
  have l: "loadTurnSectionsFromSource hitPlatform (js ''qmd://tinyclaw-a/t.md'') (js ''a'') = Inr None"
    unfolding loadTurnSectionsFromSource_def
    by (simp add: m d hitPlatform_def examplePlatform_def Let_def)
  show ?thesis
    by (simp add: rerankAndHydrateResults_def hydrateResult_def l sortByScore_def Let_def)
qed

lemma compose_hit:
  "composeEnriched hitPlatform (getQmdConfig exampleSettings) (js ''a'') message
     [\<lparr> score = Fin 1, snippet = js ''The key is ABC-123-XYZ'', source = js ''qmd://tinyclaw-a/t.md'' \<rparr>] =
   Inr (message @ memoryPreamble @ js ''Snippet 1 (score=1.000):'' @ [10]
          @ js ''Source: qmd://tinyclaw-a/t.md'' @ [10] @ js ''The key is ABC-123-XYZ'')"
proof -
  let ?r = "\<lparr> score = Fin 1, snippet = js ''The key is ABC-123-XYZ'', source = js ''qmd://tinyclaw-a/t.md'' \<rparr>"
  have b: "packBlocks (toFixed3 hitPlatform) 2500 0 0 [?r] =
     [js ''Snippet 1 (score=1.000):'' @ [10] @ js ''Source: qmd://tinyclaw-a/t.md'' @ [10]
        @ js ''The key is ABC-123-XYZ'']"
    by (simp add: snippetBlock_def hitPlatform_def examplePlatform_def js_def Let_def)
  have f: "formatMemoryPrompt (toFixed3 hitPlatform) [?r] 2500 =
     memoryPreamble @ js ''Snippet 1 (score=1.000):'' @ [10] @ js ''Source: qmd://tinyclaw-a/t.md''
       @ [10] @ js ''The key is ABC-123-XYZ''"
    unfolding formatMemoryPrompt_eq b by simp
  show ?thesis
    unfolding composeEnriched_def rerank_hit config_exampleSettings
    by (simp add: f Let_def memoryPreamble_nonempty)
qed

lemma enrich_hit:
  "fst (enrichMessageWithMemory hitPlatform initialState 1000000000 (js ''a'')
          (js ''what is the api key?'') exampleSettings (js ''telegram'')) =
     js ''what is the api key?'' @ memoryPreamble @ js ''Snippet 1 (score=1.000):'' @ [10]
       @ js ''Source: qmd://tinyclaw-a/t.md'' @ [10] @ js ''The key is ABC-123-XYZ''"
proof -
  let ?m = "js ''what is the api key?''"
  let ?cfg = "getQmdConfig exampleSettings"
  have en: "enabled ?cfg" "command ?cfg = None" "quickPrecheckEnabled ?cfg"
    "\<not> useSemanticSearch ?cfg"
    by (simp_all add: config_exampleSettings)
  have ch: "shouldUseMemoryForChannel (js ''telegram'')"
    by (simp add: shouldUseMemoryForChannel_def MEMORY_CHANNELS_def)
  obtain st1 where 1: "isQmdAvailable hitPlatform initialState None = (True, st1)"
    using probe_hit by (cases "isQmdAvailable hitPlatform initialState None") auto
  obtain st2 where 2: "ensureCollection hitPlatform st1 (js ''a'') = (Inr (js ''tinyclaw-a''), st2)"
    using ensure_hit[of st1] by (cases "ensureCollection hitPlatform st1 (js ''a'')") auto
  obtain st3 where 3: "maybeUpdateCollection hitPlatform st2 1000000000 (js ''tinyclaw-a'')
        (updateIntervalSeconds ?cfg) = (Inr (), st3)"
    using update_hit[of st2 1000000000 "js ''tinyclaw-a''" "updateIntervalSeconds ?cfg"]
    by (cases "maybeUpdateCollection hitPlatform st2 1000000000 (js ''tinyclaw-a'')
        (updateIntervalSeconds ?cfg)") auto
  obtain st4 where 4: "precheckGate hitPlatform st3 ?m (js ''tinyclaw-a'') ?cfg = (True, st4)"
    using quick_hit[of st3 "js ''tinyclaw-a''" ?cfg] en(3)
    by (cases "quickHasLexicalHit hitPlatform st3 ?m (js ''tinyclaw-a'') ?cfg")
       (auto simp: precheckGate_def)
  have 5: "resolveRetrievalMode hitPlatform st4 ?cfg = (\<lparr> useVsearch = False, label = Qmd_bm25 \<rparr>, st4)"
    using en(4) by (simp add: resolveRetrievalMode_def)
  obtain st6 where 6: "runQuery hitPlatform st4 \<lparr> useVsearch = False, label = Qmd_bm25 \<rparr> ?m
        (js ''tinyclaw-a'') ?cfg =
      (Inr \<lparr> results = [\<lparr> score = Fin 1, snippet = js ''The key is ABC-123-XYZ'',
                            source = js ''qmd://tinyclaw-a/t.md'' \<rparr>],
             query = ?m \<rparr>, st6)"
    using bm25_hit[of st4 "js ''tinyclaw-a''" ?cfg]
    by (cases "runBm25WithVariants hitPlatform st4 ?m (js ''tinyclaw-a'') ?cfg")
       (auto simp: runQuery_def)
  have body: "enrichBody hitPlatform st1 1000000000 (js ''a'') ?m ?cfg =
      (Inr (?m @ memoryPreamble @ js ''Snippet 1 (score=1.000):'' @ [10]
          @ js ''Source: qmd://tinyclaw-a/t.md'' @ [10] @ js ''The key is ABC-123-XYZ''), st6)"
    unfolding enrichBody_def 2 by (simp add: 3 4 5 6 compose_hit)
  show ?thesis
    unfolding enrichMessageWithMemory_def Let_def using en ch by (simp add: 1 body)
qed



theorem enrichMessageWithMemory_prefix_witness:
  "prefix (js ''what is the api key?'')
     (fst (enrichMessageWithMemory hitPlatform initialState 1000000000 (js ''a'')
          (js ''what is the api key?'') exampleSettings (js ''telegram'')))
   \<and> fst (enrichMessageWithMemory hitPlatform initialState 1000000000 (js ''a'')
          (js ''what is the api key?'') exampleSettings (js ''telegram'')) =
     js ''what is the api key?'' @ memoryPreamble @ js ''Snippet 1 (score=1.000):'' @ [10]
       @ js ''Source: qmd://tinyclaw-a/t.md'' @ [10] @ js ''The key is ABC-123-XYZ''"
  using enrichMessageWithMemory_prefix [of "js ''what is the api key?''" hitPlatform initialState
      1000000000 "js ''a''" exampleSettings "js ''telegram''"] enrich_hit
  by blast

text \<open>On the backend whose search commands time out, with the precheck off: the query
  fails after the probe, the registration and the refresh, and the message comes back
  as it was.\<close>

lemma query_timeout:
  "fst (runQuery timeoutPlatform st mode (js ''what is the api key?'') coll qmdCfg) =
     Inl (CommandError (js ''Command timed out''))"
proof -
  have r: "runCommand timeoutPlatform s
      \<lparr> cmd = c, args = searchArgs timeoutPlatform verb q coll n qmdCfg, timeoutMs = t, extraEnv = e \<rparr> =
      (Inl (js ''Command timed out''),
       s\<lparr> issued := issued s @ [\<lparr> cmd = c, args = searchArgs timeoutPlatform verb q coll n qmdCfg,
                                   timeoutMs = t, extraEnv = e \<rparr>] \<rparr>)"
    if "verb = js ''search'' \<or> verb = js ''vsearch''" for s c verb q n t e
    using that by (auto simp: runCommand_def timeoutPlatform_def searchArgs_def js_def)
  show ?thesis
    by (simp add: runQuery_def runBm25WithVariants_def variants_api_key r)
qed

lemma config_noPrecheckSettings: "getQmdConfig noPrecheckSettings =
   \<lparr> enabled = True, command = None, topK = 4, minScore = 0, maxChars = 2500,
     updateIntervalSeconds = 120, useSemanticSearch = False, disableQueryExpansion = True,
     allowUnsafeVsearch = False, quickPrecheckEnabled = False, precheckTimeoutMs = 800,
     searchTimeoutMs = 3000, vectorSearchTimeoutMs = 10000, debugLogging = False \<rparr>"
  by (simp add: getQmdConfig_def noPrecheckSettings_def clampedOr_def js_def Let_def
      DEFAULT_TOP_K_def DEFAULT_MIN_SCORE_def DEFAULT_MAX_CHARS_def
      DEFAULT_UPDATE_INTERVAL_SECONDS_def DEFAULT_PRECHECK_TIMEOUT_MS_def
      DEFAULT_TEXT_SEARCH_TIMEOUT_MS_def DEFAULT_VECTOR_SEARCH_TIMEOUT_MS_def)

lemma names_timeoutPlatform: "getCollectionName timeoutPlatform (js ''a'') = js ''tinyclaw-a''"
  "ensureDir timeoutPlatform x"
  by (simp_all add: getCollectionName_def sanitizeId_def timeoutPlatform_def examplePlatform_def
        isIdChar_def asciiLower_def js_def ensureDir_def)

lemma run_timeoutPlatform: "runCommand timeoutPlatform st c =
   ((if args c \<noteq> [] \<and> hd (args c) \<in> {js ''--help'', js ''collection'', js ''update''}
                  then Inr [] else Inl (js ''Command timed out'')), st\<lparr> issued := issued st @ [c] \<rparr>)"
  by (simp add: runCommand_def timeoutPlatform_def)

lemma enrich_timeout_trace: "map (\<lambda>c. hd (args c)) (issued (snd (enrichMessageWithMemory timeoutPlatform initialState
    1000000000 (js ''a'') (js ''what is the api key?'') noPrecheckSettings (js ''telegram'')))) =
   [js ''--help'', js ''collection'', js ''update'', js ''search'']"
  unfolding enrichMessageWithMemory_def config_noPrecheckSettings Let_def
  by (simp add: shouldUseMemoryForChannel_def MEMORY_CHANNELS_def isQmdAvailable_def initialState_def
     run_timeoutPlatform enrichBody_def ensureCollection_def names_timeoutPlatform maybeUpdateCollection_def lastUpdateOf_def
     precheckGate_def resolveRetrievalMode_def runQuery_def runBm25WithVariants_def variants_api_key
     searchArgs_def Let_def commandOr_def)
     (simp add: js_def)

theorem enrichMessageWithMemory_fail_open_witness:
  "fst (enrichMessageWithMemory timeoutPlatform initialState 1000000000 (js ''a'')
          (js ''what is the api key?'') noPrecheckSettings (js ''telegram'')) =
     js ''what is the api key?''
   \<and> map (\<lambda>c. hd (args c)) (issued (snd (enrichMessageWithMemory timeoutPlatform initialState
          1000000000 (js ''a'') (js ''what is the api key?'') noPrecheckSettings (js ''telegram'')))) =
       [js ''--help'', js ''collection'', js ''update'', js ''search'']"
proof (rule conjI)
  let ?R = "fst (enrichMessageWithMemory timeoutPlatform initialState 1000000000 (js ''a'')
          (js ''what is the api key?'') noPrecheckSettings (js ''telegram''))"
  from enrichMessageWithMemory_fail_open [of timeoutPlatform initialState 1000000000 "js ''a''"
      "js ''what is the api key?''" noPrecheckSettings "js ''telegram''"]
  show "?R = js ''what is the api key?''"
  proof
    assume "?R = js ''what is the api key?''"
    then show ?thesis .
  next
    assume "\<exists>st1 coll st2 st3 st4 mode st5 qr st6 ranked.
         enabled (getQmdConfig noPrecheckSettings) \<and> shouldUseMemoryForChannel (js ''telegram'')
       \<and> isQmdAvailable timeoutPlatform initialState (command (getQmdConfig noPrecheckSettings)) = (True, st1)
       \<and> ensureCollection timeoutPlatform st1 (js ''a'') = (Inr coll, st2)
       \<and> maybeUpdateCollection timeoutPlatform st2 1000000000 coll
            (updateIntervalSeconds (getQmdConfig noPrecheckSettings)) = (Inr (), st3)
       \<and> precheckGate timeoutPlatform st3 (js ''what is the api key?'') coll (getQmdConfig noPrecheckSettings) = (True, st4)
       \<and> resolveRetrievalMode timeoutPlatform st4 (getQmdConfig noPrecheckSettings) = (mode, st5)
       \<and> runQuery timeoutPlatform st5 mode (js ''what is the api key?'') coll (getQmdConfig noPrecheckSettings) = (Inr qr, st6)
       \<and> results qr \<noteq> []
       \<and> rerankAndHydrateResults timeoutPlatform (results qr) (js ''what is the api key?'') (js ''a'') = Inr ranked
       \<and> formatMemoryPrompt (toFixed3 timeoutPlatform) ranked (maxChars (getQmdConfig noPrecheckSettings)) \<noteq> []
       \<and> ?R = js ''what is the api key?'' @ formatMemoryPrompt (toFixed3 timeoutPlatform) ranked (maxChars (getQmdConfig noPrecheckSettings))"
    then obtain st5 mode coll qr st6 where
      "runQuery timeoutPlatform st5 mode (js ''what is the api key?'') coll (getQmdConfig noPrecheckSettings) = (Inr qr, st6)"
      by blast
    with query_timeout[of st5 mode coll "getQmdConfig noPrecheckSettings"] show ?thesis by simp
  qed
next
  show "map (\<lambda>c. hd (args c)) (issued (snd (enrichMessageWithMemory timeoutPlatform initialState
          1000000000 (js ''a'') (js ''what is the api key?'') noPrecheckSettings (js ''telegram'')))) =
       [js ''--help'', js ''collection'', js ''update'', js ''search'']"
    by (rule enrich_timeout_trace)
qed


end
